theory Spec2Isabelle
  imports Main "HOL-Library.AList" "HOL-Library.Log_Nat"
begin

section \<open>Python values\<close>

text \<open>
  The value an \<open>id\<close> field of a gateway response or of the state file carries:
  \<open>None\<close> (the field is absent or null), an integer or a string.
\<close>

datatype pyval = PNone | PInt int | PStr string

text \<open>Python truthiness, as \<open>if v:\<close> reads it.\<close>

fun truthy :: "pyval \<Rightarrow> bool" where
  "truthy PNone = False"
| "truthy (PInt i) = (i \<noteq> 0)"
| "truthy (PStr s) = (s \<noteq> [])"

text \<open>JSON request bodies.\<close>

datatype json = JNull | JBool bool | JInt int | JStr string
  | JList "json list" | JObj "(string \<times> json) list"

fun jv :: "pyval \<Rightarrow> json" where
  "jv PNone = JNull"
| "jv (PInt i) = JInt i"
| "jv (PStr s) = JStr s"

fun jfield :: "json \<Rightarrow> string \<Rightarrow> json option" where
  "jfield (JObj kvs) k = map_of kvs k"
| "jfield _ k = None"

text \<open>\<open>str(n)\<close> for an integer: its decimal digits, with a sign when negative.\<close>

definition digit_char :: "nat \<Rightarrow> char" where
  "digit_char d = ''0123456789'' ! d"

function nat_str :: "nat \<Rightarrow> string" where
  "nat_str n = (if n < 10 then [digit_char n] else nat_str (n div 10) @ [digit_char (n mod 10)])"
  by pat_completeness auto
termination
  by (relation "measure id") auto

declare nat_str.simps [simp del]

definition int_str :: "int \<Rightarrow> string" where
  "int_str i = (if i < 0 then CHR ''-'' # nat_str (nat (- i)) else nat_str (nat i))"

fun py_str :: "pyval \<Rightarrow> string" where
  "py_str PNone = ''None''"
| "py_str (PInt i) = int_str i"
| "py_str (PStr s) = s"

text \<open>\<open>s[:n]\<close>: a negative bound counts from the end.\<close>

definition py_slice_to :: "int \<Rightarrow> 'a list \<Rightarrow> 'a list" where
  "py_slice_to n xs = (if 0 \<le> n then take (nat n) xs else take (length xs - nat (- n)) xs)"

text \<open>\<open>s.rsplit(c, 1)\<close>: split once, at the last occurrence of the separator.\<close>

definition py_rsplit1 :: "char \<Rightarrow> string \<Rightarrow> string list" where
  "py_rsplit1 c s =
     (if c \<in> set s
      then [rev (tl (dropWhile (\<lambda>x. x \<noteq> c) (rev s))), rev (takeWhile (\<lambda>x. x \<noteq> c) (rev s))]
      else [s])"

text \<open>\<open>needle in haystack\<close> on strings.\<close>

fun py_prefix :: "string \<Rightarrow> string \<Rightarrow> bool" where
  "py_prefix [] ys = True"
| "py_prefix (x # xs) [] = False"
| "py_prefix (x # xs) (y # ys) = (x = y \<and> py_prefix xs ys)"

fun py_in :: "string \<Rightarrow> string \<Rightarrow> bool" where
  "py_in needle [] = (needle = [])"
| "py_in needle (y # ys) = (py_prefix needle (y # ys) \<or> py_in needle ys)"

section \<open>wp\_migrate.py: the state ledger\<close>

text \<open>
  \<open>MigrationState.data\<close>. The identifier maps are dictionaries keyed by \<open>str(wp_id)\<close>.
\<close>

type_synonym idmap = "(string \<times> pyval) list"

record mstate =
  wp_categories :: idmap
  wn_author_id :: pyval
  wp_posts :: idmap
  wp_pages :: idmap
  wp_media_si :: idmap
  wp_media_wn :: idmap
  si_menus :: idmap
  si_contacts :: "pyval list"
  completed_steps :: "string list"

definition empty_state :: mstate where
  "empty_state = \<lparr> wp_categories = [], wn_author_id = PNone, wp_posts = [],
     wp_pages = [], wp_media_si = [], wp_media_wn = [],
     si_menus = [], si_contacts = [], completed_steps = [] \<rparr>"

text \<open>\<open>key in d\<close> and \<open>d.get(key)\<close> on a dictionary kept as an association list.\<close>

definition has_key :: "idmap \<Rightarrow> string \<Rightarrow> bool" where
  "has_key d k = (map_of d k \<noteq> None)"

definition dict_get :: "idmap \<Rightarrow> string \<Rightarrow> pyval" where
  "dict_get d k = (case map_of d k of None \<Rightarrow> PNone | Some v \<Rightarrow> v)"

text \<open>
  The ledger entry a creation call feeds: one of the identifier maps, the author
  singleton or the contact list.
\<close>

datatype slot = Categories | Author | Posts | Pages | MediaSI | MediaWN | Menus | Contacts


text \<open>Whether the key is in the slot's identifier map (the per-entity skip test).\<close>

fun mapped :: "mstate \<Rightarrow> slot \<Rightarrow> string \<Rightarrow> bool" where
  "mapped s Categories k = has_key (wp_categories s) k"
| "mapped s Posts k = has_key (wp_posts s) k"
| "mapped s Pages k = has_key (wp_pages s) k"
| "mapped s MediaSI k = has_key (wp_media_si s) k"
| "mapped s MediaWN k = has_key (wp_media_wn s) k"
| "mapped s Menus k = has_key (si_menus s) k"
| "mapped s Author k = False"
| "mapped s Contacts k = False"

text \<open>
  The ledger write of a creation site: \<open>state.data[slot][key] = id\<close> for a map,
  the assignment of the author id, \<open>append\<close> for the contact list.
\<close>

fun put :: "slot \<Rightarrow> string \<Rightarrow> pyval \<Rightarrow> mstate \<Rightarrow> mstate" where
  "put Categories k v s = s\<lparr>wp_categories := AList.update k v (wp_categories s)\<rparr>"
| "put Posts k v s = s\<lparr>wp_posts := AList.update k v (wp_posts s)\<rparr>"
| "put Pages k v s = s\<lparr>wp_pages := AList.update k v (wp_pages s)\<rparr>"
| "put MediaSI k v s = s\<lparr>wp_media_si := AList.update k v (wp_media_si s)\<rparr>"
| "put MediaWN k v s = s\<lparr>wp_media_wn := AList.update k v (wp_media_wn s)\<rparr>"
| "put Menus k v s = s\<lparr>si_menus := AList.update k v (si_menus s)\<rparr>"
| "put Author k v s = s\<lparr>wn_author_id := v\<rparr>"
| "put Contacts k v s = s\<lparr>si_contacts := si_contacts s @ [v]\<rparr>"

section \<open>wp\_migrate.py: remote calls and the event trace\<close>

text \<open>
  A gateway call either raises (network failure, timeout, undecodable body) or returns
  a status code and the dictionary \<open>result.get("data", result)\<close> of its JSON body.
\<close>

datatype response = Resp nat "(string \<times> pyval) list" | Raised

datatype request =
    POST string json
  | PATCH string json
  | UPLOAD string string string

text \<open>What a streamed download of a media file does.\<close>

datatype download = Complete string | Partial string | Refused

text \<open>
  The observable effects, newest first. A creation call carries the ledger entry its
  result is stored under (\<open>None\<close> for menu items and workflow transitions, which the
  ledger does not record). \<open>Save\<close> is \<open>state.save()\<close>: the whole document is written.
\<close>

datatype event =
    Call "(slot \<times> string) option" request response
  | Get string download
  | Save mstate

record world =
  st :: mstate
  cache :: "string \<rightharpoonup> string"
  tr :: "event list"
  dead :: bool

definition save :: "world \<Rightarrow> world" where
  "save w = w\<lparr>tr := Save (st w) # tr w\<rparr>"

definition is_done :: "mstate \<Rightarrow> string \<Rightarrow> bool" where
  "is_done s step = (step \<in> set (completed_steps s))"

definition mark_step :: "string \<Rightarrow> world \<Rightarrow> world" where
  "mark_step step w =
     (if step \<notin> set (completed_steps (st w))
      then save (w\<lparr>st := (st w)\<lparr>completed_steps := completed_steps (st w) @ [step]\<rparr>\<rparr>)
      else w)"

definition ok_status :: "nat \<Rightarrow> bool" where
  "ok_status c = (c = 200 \<or> c = 201)"

definition data_id :: "(string \<times> pyval) list \<Rightarrow> pyval" where
  "data_id d = (case map_of d ''id'' of None \<Rightarrow> PNone | Some v \<Rightarrow> v)"

section \<open>Source reader: text functions\<close>

text \<open>
  The HTML library (BeautifulSoup) is not part of the repository; the functions that use
  it take its operations as parameters: \<open>get_text\<close> is \<open>soup.get_text()\<close>,
  \<open>get_text_sep\<close> is \<open>soup.get_text(separator=" ", strip=True)\<close>, and \<open>soup_clean\<close>
  parses, unwraps every \<open>div\<close> whose class matches \<open>et_pb_\<close>, removes every \<open>div\<close>
  with neither text nor image, and serialises the tree again.
\<close>

record htmllib =
  get_text :: "string \<Rightarrow> string"
  get_text_sep :: "string \<Rightarrow> string"
  soup_clean :: "string \<Rightarrow> string"

definition newline :: char where
  "newline = CHR 0x0A"

text \<open>\<open>re.sub(r"\n{3,}", "\n\n", text)\<close>; the counter is the length of the run being read.\<close>

fun collapse_newlines :: "nat \<Rightarrow> string \<Rightarrow> string" where
  "collapse_newlines n [] = replicate (min n 2) newline"
| "collapse_newlines n (c # cs) =
     (if c = newline then collapse_newlines (Suc n) cs
      else replicate (min n 2) newline @ c # collapse_newlines 0 cs)"

definition is_space :: "char \<Rightarrow> bool" where
  "is_space c = (c \<in> set [CHR 0x09, CHR 0x0A, CHR 0x0B, CHR 0x0C, CHR 0x0D,
     CHR 0x1C, CHR 0x1D, CHR 0x1E, CHR 0x1F, CHR 0x20])"

definition py_strip :: "string \<Rightarrow> string" where
  "py_strip s = rev (dropWhile is_space (rev (dropWhile is_space s)))"

definition wp_clean_html :: "htmllib \<Rightarrow> string \<Rightarrow> string" where
  "wp_clean_html H html =
     (if html = [] then [] else py_strip (collapse_newlines 0 (soup_clean H html)))"

definition wp_extract_excerpt :: "htmllib \<Rightarrow> string \<Rightarrow> int \<Rightarrow> string" where
  "wp_extract_excerpt H content max_len =
     (if content = [] then []
      else let text = get_text_sep H content in
        if max_len < int (length text)
        then hd (py_rsplit1 CHR '' '' (py_slice_to max_len text)) @ ''...''
        else text)"

text \<open>A library stand-in for tag-free input: plain text is its own text content.\<close>

definition plain_html :: htmllib where
  "plain_html = \<lparr> get_text = (\<lambda>s. s), get_text_sep = (\<lambda>s. s), soup_clean = (\<lambda>s. s) \<rparr>"

section \<open>Entity transformers: the article payload\<close>

record wp_post =
  post_id :: int
  post_slug :: string
  post_title :: string
  post_content :: string
  post_excerpt :: string
  post_categories :: "int list"
  post_featured_media :: "int option"

text \<open>
  The loop over \<open>wp_cat_ids\<close> in \<open>migrate_posts\<close>: it stops at the first id whose key
  is in the category map and takes the value stored there.
\<close>

fun resolve_category :: "idmap \<Rightarrow> int list \<Rightarrow> pyval" where
  "resolve_category m [] = PNone"
| "resolve_category m (wc # wcs) =
     (case map_of m (int_str wc) of Some v \<Rightarrow> v | None \<Rightarrow> resolve_category m wcs)"

definition featured_image :: "idmap \<Rightarrow> int option \<Rightarrow> pyval" where
  "featured_image m fm =
     (case fm of None \<Rightarrow> PNone
      | Some i \<Rightarrow> if i \<noteq> 0 then dict_get m (int_str i) else PNone)"

text \<open>\<open>if v: payload[k] = v\<close>\<close>

definition opt_field :: "string \<Rightarrow> pyval \<Rightarrow> (string \<times> json) list" where
  "opt_field k v = (if truthy v then [(k, jv v)] else [])"

definition post_slug_cut :: "wp_post \<Rightarrow> string" where
  "post_slug_cut p = (if 290 < length (post_slug p) then take 290 (post_slug p) else post_slug p)"

definition post_payload :: "htmllib \<Rightarrow> pyval \<Rightarrow> mstate \<Rightarrow> wp_post \<Rightarrow> json" where
  "post_payload H author_id s p =
     (let title = get_text H (post_title p);
          content = wp_clean_html H (post_content p);
          excerpt = wp_extract_excerpt H
            (if post_excerpt p \<noteq> [] then post_excerpt p else content) 400
      in JObj ([(''slug'', JStr (post_slug_cut p)),
                (''tituloPt'', JStr (take 300 title)),
                (''conteudoPt'', JStr content),
                (''excertoPt'', JStr (take 500 excerpt)),
                (''metaTituloPt'', JStr (take 160 title)),
                (''metaDescricaoPt'', JStr (take 320 excerpt)),
                (''featured'', JBool False)]
               @ opt_field ''categoryId'' (resolve_category (wp_categories s) (post_categories p))
               @ opt_field ''authorId'' author_id
               @ opt_field ''featuredImageId''
                   (featured_image (wp_media_wn s) (post_featured_media p))))"

section \<open>wp\_migrate.py: source entities, tables and collaborators\<close>

record wp_category =
  cat_id :: int
  cat_slug :: string
  cat_name :: string
  cat_description :: string
  cat_count :: int

record wp_page =
  page_id :: int
  page_title :: string
  page_content :: string
  page_featured_media :: "int option"

record wp_media =
  media_id :: int
  media_source_url :: string
  media_alt_text :: string
  media_title :: string
  media_mime_type :: string

text \<open>
  What \<open>wp_fetch_all\<close> returns for each endpoint on the source data at hand;
  \<open>None\<close> when it raises.
\<close>

record source =
  src_categories :: "wp_category list option"
  src_posts :: "wp_post list option"
  src_pages :: "wp_page list option"
  src_media :: "wp_media list option"

text \<open>
  The literal tables of the script (\<open>WP_CATEGORY_MAP\<close>, \<open>WP_PAGE_MAP\<close>, the menu,
  contact and supplementary page payloads) and the two backend addresses, passed as
  read-only data.
\<close>

record category_meta =
  nomePt :: string
  nomeEn :: string
  nomeDe :: string
  cor :: string

record page_meta =
  pm_slug :: string
  pm_tipo :: string
  pm_sort :: int

record config =
  wn_backend :: string
  si_backend :: string
  category_map :: "(string \<times> category_meta) list"
  page_map :: "(int \<times> page_meta) list"
  author_payload :: json
  header_menu :: json
  header_items :: "json list"
  footer_menu :: json
  footer_items :: "json list"
  contacts :: "json list"
  additional_pages :: "(string \<times> json) list"

text \<open>The collaborators: each answer may depend on everything that happened before.\<close>

record env =
  api :: "event list \<Rightarrow> request \<Rightarrow> response"
  net :: "event list \<Rightarrow> string \<Rightarrow> download"
  url_name :: "string \<Rightarrow> string"
  auth_ok :: bool
  html :: htmllib
  cfg :: config
  src :: source

text \<open>One remote call: the answer is logged with the request; a raise ends the process.\<close>

definition call :: "env \<Rightarrow> (slot \<times> string) option \<Rightarrow> request \<Rightarrow> world \<Rightarrow> response \<times> world" where
  "call e tag rq w =
     (let r = api e (tr w) rq in (r, w\<lparr>tr := Call tag rq r # tr w, dead := (r = Raised)\<rparr>))"

text \<open>
  Whether the caller takes the answer as a creation: status 200 or 201, and for a media
  upload a non-empty result dictionary (\<open>if result:\<close>).
\<close>

fun accepted :: "request \<Rightarrow> nat \<Rightarrow> (string \<times> pyval) list \<Rightarrow> bool" where
  "accepted (UPLOAD u f a) code d = (ok_status code \<and> d \<noteq> [])"
| "accepted rq code d = ok_status code"

text \<open>
  The creation pattern every site repeats: the call, the status test, the ledger write
  and \<open>state.save()\<close> right after it. The result tells whether an id was stored.
\<close>

definition create :: "env \<Rightarrow> slot \<Rightarrow> string \<Rightarrow> request \<Rightarrow> world \<Rightarrow> pyval option \<times> world" where
  "create e sl k rq w =
     (case call e (Some (sl, k)) rq w of
        (Raised, w') \<Rightarrow> (None, w')
      | (Resp code d, w') \<Rightarrow>
          if accepted rq code d
          then (Some (data_id d), save (w'\<lparr>st := put sl k (data_id d) (st w')\<rparr>))
          else (None, w'))"

text \<open>Calls whose answer is not looked at (workflow transitions, menu items).\<close>

fun calls :: "env \<Rightarrow> request list \<Rightarrow> world \<Rightarrow> world" where
  "calls e [] w = w"
| "calls e (rq # rqs) w =
     (case call e None rq w of (Raised, w') \<Rightarrow> w' | (Resp code d, w') \<Rightarrow> calls e rqs w')"

section \<open>wp\_migrate.py: the media cache\<close>

text \<open>
  \<open>download_media\<close>: the cache is consulted by existence of the file alone; a download
  that breaks while streaming leaves what it wrote in the cache.
\<close>

definition download_media :: "env \<Rightarrow> string \<Rightarrow> world \<Rightarrow> string option \<times> world" where
  "download_media e url w =
     (let local_path = url_name e url in
      case cache w local_path of
        Some b \<Rightarrow> (Some local_path, w)
      | None \<Rightarrow>
          (let d = net e (tr w) url; w' = w\<lparr>tr := Get url d # tr w\<rparr> in
           case d of
             Complete b \<Rightarrow> (Some local_path, w'\<lparr>cache := (cache w')(local_path \<mapsto> b)\<rparr>)
           | Partial b \<Rightarrow> (None, w'\<lparr>cache := (cache w')(local_path \<mapsto> b)\<rparr>)
           | Refused \<Rightarrow> (None, w')))"

section \<open>wp\_migrate.py: the steps\<close>

subsection \<open>Step 1: categories\<close>




subsection \<open>Step 2: the author\<close>

definition create_wn_author :: "env \<Rightarrow> bool \<Rightarrow> world \<Rightarrow> world" where
  "create_wn_author e dry w =
     (if is_done (st w) ''author'' then w
      else if truthy (wn_author_id (st w)) then mark_step ''author'' w
      else if dry then w
      else case create e Author [] (POST (wn_backend (cfg e) @ ''/api/v1/authors'')
                                         (author_payload (cfg e))) w of
        (Some v, w') \<Rightarrow> mark_step ''author'' w'
      | (None, w') \<Rightarrow> w')"

subsection \<open>Step 3: posts\<close>




subsection \<open>Step 4: pages\<close>


definition publish_page :: "env \<Rightarrow> pyval \<Rightarrow> request list" where
  "publish_page e pid =
     [PATCH (si_backend (cfg e) @ ''/api/v1/pages/'' @ py_str pid @ ''/estado'')
            (JObj [(''estado'', JStr ''PUBLISHED'')])]"



subsection \<open>Step 5: media\<close>








subsection \<open>Step 6: menus\<close>



subsection \<open>Step 7: contacts\<close>



subsection \<open>Step 8: supplementary pages\<close>

text \<open>
  \<open>any(v for k, v in state.data["wp_pages"].items() if slug in str(v))\<close>: the test
  reads the stored target ids, not the keys.
\<close>

definition possibly_exists :: "idmap \<Rightarrow> string \<Rightarrow> bool" where
  "possibly_exists pages slug = list_ex (\<lambda>(k, v). py_in slug (py_str v) \<and> truthy v) pages"

fun additional_loop :: "env \<Rightarrow> bool \<Rightarrow> (string \<times> json) list \<Rightarrow> world \<Rightarrow> world" where
  "additional_loop e dry [] w = w"
| "additional_loop e dry ((slug, page_data) # ps) w =
     (if possibly_exists (wp_pages (st w)) slug then additional_loop e dry ps w
      else if dry then additional_loop e dry ps w
      else case create e Pages (''additional_'' @ slug)
                  (POST (si_backend (cfg e) @ ''/api/v1/pages'') page_data) w of
        (Some pid, w') \<Rightarrow>
          (let w'' = calls e (publish_page e pid) w'
           in if dead w'' then w'' else additional_loop e dry ps w'')
      | (None, w') \<Rightarrow> if dead w' then w' else additional_loop e dry ps w')"

definition create_additional_si_pages :: "env \<Rightarrow> bool \<Rightarrow> world \<Rightarrow> world" where
  "create_additional_si_pages e dry w =
     (if is_done (st w) ''additional_pages'' then w
      else let w' = additional_loop e dry (additional_pages (cfg e)) w in
        if dead w' then w' else if \<not> dry then mark_step ''additional_pages'' w' else w')"

subsection \<open>The step table and the main loop\<close>






subsection \<open>The script's tables and sample collaborators\<close>

text \<open>
  The literal tables of \<open>wp_migrate.py\<close>. The localized labels and body texts of the
  payloads, and the two category entries with accented names, are left out; the slugs,
  types, addresses and orders are the script's.
\<close>

definition repo_config :: config where
  "repo_config =
     \<lparr> wn_backend = ''http://localhost:8083'',
       si_backend = ''http://localhost:8082'',
       category_map =
         [(''diplomacia'', \<lparr>nomePt = ''Diplomacia'', nomeEn = ''Diplomacy'', nomeDe = ''Diplomatie'', cor = ''#1a237e''\<rparr>),
          (''economia'', \<lparr>nomePt = ''Economia'', nomeEn = ''Economy'', nomeDe = ''Wirtschaft'', cor = ''#1b5e20''\<rparr>),
          (''cultura'', \<lparr>nomePt = ''Cultura'', nomeEn = ''Culture'', nomeDe = ''Kultur'', cor = ''#e65100''\<rparr>),
          (''desporto'', \<lparr>nomePt = ''Desporto'', nomeEn = ''Sports'', nomeDe = ''Sport'', cor = ''#0d47a1''\<rparr>),
          (''turismo'', \<lparr>nomePt = ''Turismo'', nomeEn = ''Tourism'', nomeDe = ''Tourismus'', cor = ''#00695c''\<rparr>),
          (''reportagem'', \<lparr>nomePt = ''Reportagem'', nomeEn = ''Report'', nomeDe = ''Reportage'', cor = ''#263238''\<rparr>),
          (''responsabilidade-social'', \<lparr>nomePt = ''Responsabilidade Social'', nomeEn = ''Social Responsibility'',
             nomeDe = ''Soziale Verantwortung'', cor = ''#880e4f''\<rparr>),
          (''webinares'', \<lparr>nomePt = ''Webinares'', nomeEn = ''Webinars'', nomeDe = ''Webinare'', cor = ''#311b92''\<rparr>),
          (''destaques'', \<lparr>nomePt = ''Destaques'', nomeEn = ''Highlights'', nomeDe = ''Highlights'', cor = ''#cc092f''\<rparr>)],
       page_map =
         [(3162, \<lparr>pm_slug = ''presidente'', pm_tipo = ''INSTITUTIONAL'', pm_sort = 1\<rparr>),
          (3191, \<lparr>pm_slug = ''poderes-executivo'', pm_tipo = ''INSTITUTIONAL'', pm_sort = 2\<rparr>),
          (3183, \<lparr>pm_slug = ''poderes-legislativo'', pm_tipo = ''INSTITUTIONAL'', pm_sort = 3\<rparr>),
          (3178, \<lparr>pm_slug = ''poderes-judicial'', pm_tipo = ''INSTITUTIONAL'', pm_sort = 4\<rparr>),
          (3200, \<lparr>pm_slug = ''mirex'', pm_tipo = ''INSTITUTIONAL'', pm_sort = 5\<rparr>),
          (1274, \<lparr>pm_slug = ''sobre-angola'', pm_tipo = ''INSTITUTIONAL'', pm_sort = 0\<rparr>),
          (1282, \<lparr>pm_slug = ''demografia'', pm_tipo = ''INSTITUTIONAL'', pm_sort = 6\<rparr>),
          (1277, \<lparr>pm_slug = ''geografia'', pm_tipo = ''INSTITUTIONAL'', pm_sort = 7\<rparr>),
          (1271, \<lparr>pm_slug = ''historia'', pm_tipo = ''INSTITUTIONAL'', pm_sort = 8\<rparr>),
          (1236, \<lparr>pm_slug = ''simbolos'', pm_tipo = ''INSTITUTIONAL'', pm_sort = 9\<rparr>),
          (1286, \<lparr>pm_slug = ''economia'', pm_tipo = ''INSTITUTIONAL'', pm_sort = 10\<rparr>),
          (71, \<lparr>pm_slug = ''embaixada'', pm_tipo = ''INSTITUTIONAL'', pm_sort = 0\<rparr>),
          (1793, \<lparr>pm_slug = ''visto-consular'', pm_tipo = ''SERVICE'', pm_sort = 1\<rparr>),
          (1796, \<lparr>pm_slug = ''visto-territorial'', pm_tipo = ''SERVICE'', pm_sort = 2\<rparr>),
          (5501, \<lparr>pm_slug = ''bilhete-identidade'', pm_tipo = ''SERVICE'', pm_sort = 3\<rparr>),
          (1582, \<lparr>pm_slug = ''impressum'', pm_tipo = ''INSTITUTIONAL'', pm_sort = 20\<rparr>),
          (1580, \<lparr>pm_slug = ''politica-privacidade'', pm_tipo = ''INSTITUTIONAL'', pm_sort = 21\<rparr>),
          (1578, \<lparr>pm_slug = ''politica-cookies'', pm_tipo = ''INSTITUTIONAL'', pm_sort = 22\<rparr>)],
       author_payload =
         JObj [(''nome'', JStr ''Embaixada de Angola na Alemanha''),
               (''slug'', JStr ''embaixada-angola-alemanha''),
               (''email'', JStr ''info@embaixada-angola.site''),
               (''role'', JStr ''INSTITUTION'')],
       header_menu = JObj [(''nome'', JStr ''Menu Principal''), (''localizacao'', JStr ''HEADER'')],
       header_items =
         [JObj [(''labelEn'', JStr ''Home''), (''url'', JStr ''/''), (''sortOrder'', JInt 0), (''icon'', JStr ''home'')],
          JObj [(''labelEn'', JStr ''About Angola''), (''url'', JStr ''/sobre-angola''), (''sortOrder'', JInt 1), (''icon'', JStr ''public'')],
          JObj [(''labelEn'', JStr ''Ambassador''), (''url'', JStr ''/embaixador''), (''sortOrder'', JInt 2), (''icon'', JStr ''person'')],
          JObj [(''labelEn'', JStr ''Consular Services''), (''url'', JStr ''/servicos-consulares''), (''sortOrder'', JInt 3), (''icon'', JStr ''assignment'')],
          JObj [(''labelEn'', JStr ''Bilateral Relations''), (''url'', JStr ''/relacoes-bilaterais''), (''sortOrder'', JInt 4), (''icon'', JStr ''handshake'')],
          JObj [(''labelEn'', JStr ''Events''), (''url'', JStr ''/eventos''), (''sortOrder'', JInt 5), (''icon'', JStr ''event'')],
          JObj [(''labelEn'', JStr ''Contacts''), (''url'', JStr ''/contactos''), (''sortOrder'', JInt 6), (''icon'', JStr ''contact_mail'')]],
       footer_menu = JObj [(''localizacao'', JStr ''FOOTER'')],
       footer_items =
         [JObj [(''labelEn'', JStr ''About Angola''), (''url'', JStr ''/sobre-angola''), (''sortOrder'', JInt 0)],
          JObj [(''labelEn'', JStr ''Consular Services''), (''url'', JStr ''/servicos-consulares''), (''sortOrder'', JInt 1)],
          JObj [(''labelEn'', JStr ''Privacy Policy''), (''url'', JStr ''/politica-privacidade''), (''sortOrder'', JInt 2)],
          JObj [(''labelEn'', JStr ''Contacts''), (''url'', JStr ''/contactos''), (''sortOrder'', JInt 3)]],
       contacts =
         [JObj [(''cidade'', JStr ''Berlin''), (''email'', JStr ''info@botschaftangola.de''), (''sortOrder'', JInt 0)],
          JObj [(''cidade'', JStr ''Berlin''), (''email'', JStr ''konsulat@botschaftangola.de''), (''sortOrder'', JInt 1)],
          JObj [(''cidade'', JStr ''Praha''), (''email'', JStr ''info@botschaftangola.de''), (''sortOrder'', JInt 2)]],
       additional_pages =
         [(''sobre-angola'', JObj [(''slug'', JStr ''sobre-angola''), (''tipo'', JStr ''INSTITUTIONAL''), (''sortOrder'', JInt 0)]),
          (''embaixador'', JObj [(''slug'', JStr ''embaixador''), (''tipo'', JStr ''INSTITUTIONAL''), (''sortOrder'', JInt 0)]),
          (''relacoes-bilaterais'', JObj [(''slug'', JStr ''relacoes-bilaterais''), (''tipo'', JStr ''INSTITUTIONAL''), (''sortOrder'', JInt 0)]),
          (''servicos-consulares'', JObj [(''slug'', JStr ''servicos-consulares''), (''tipo'', JStr ''SERVICE''), (''sortOrder'', JInt 0)])] \<rparr>"

text \<open>The last segment of a URL.\<close>

definition basename :: "string \<Rightarrow> string" where
  "basename url = rev (takeWhile (\<lambda>c. c \<noteq> CHR ''/'') (rev url))"

text \<open>
  Backends that accept every request and number the ids they give by the length of the
  trace, a source without entities, and downloads that succeed.
\<close>

definition accepting_env :: env where
  "accepting_env =
     \<lparr> api = (\<lambda>t rq. Resp 201 [(''id'', PStr (''new-'' @ nat_str (length t)))]),
       net = (\<lambda>t url. Complete ''PNG''),
       url_name = basename,
       auth_ok = True,
       html = plain_html,
       cfg = repo_config,
       src = \<lparr> src_categories = Some [], src_posts = Some [], src_pages = Some [], src_media = Some [] \<rparr> \<rparr>"

definition world_of :: "mstate \<Rightarrow> (string \<rightharpoonup> string) \<Rightarrow> world" where
  "world_of s dir0 = \<lparr> st = s, cache = dir0, tr = [], dead = False \<rparr>"

section \<open>wp\_import\_images.py\<close>

subsection \<open>Floating point\<close>

text \<open>
  Python floats are IEEE doubles. A double is modelled by the rational it denotes;
  \<open>fl\<close> rounds a rational to the nearest number with a 53-bit significand, ties to
  even. The exponent range is not bounded: the model is exact as long as no operation
  overflows or underflows, which holds for image sizes below \<open>2^53\<close>.
\<close>

definition rne :: "rat \<Rightarrow> int" where
  "rne x = (let f = \<lfloor>x\<rfloor>; d = x - of_int f
            in if d < 1 / 2 then f else if 1 / 2 < d then f + 1
               else if even f then f else f + 1)"

text \<open>\<open>\<lfloor>log\<^sub>2 x\<rfloor>\<close> for a positive rational.\<close>

definition ilog2 :: "rat \<Rightarrow> int" where
  "ilog2 x = (if 1 \<le> x then int (floorlog 2 (nat \<lfloor>x\<rfloor>)) - 1
              else - int (floorlog 2 (nat (\<lceil>1 / x\<rceil> - 1))))"

definition fl :: "rat \<Rightarrow> rat" where
  "fl x = sgn x * (let u = 2 powi (ilog2 \<bar>x\<bar> - 52) in of_int (rne (\<bar>x\<bar> / u)) * u)"

text \<open>\<open>a / b\<close> on integers (true division), \<open>n * r\<close> for an integer and a float, \<open>int(r)\<close>.\<close>

definition py_truediv :: "int \<Rightarrow> int \<Rightarrow> rat" where
  "py_truediv a b = fl (of_int a / of_int b)"

definition py_int_times_float :: "int \<Rightarrow> rat \<Rightarrow> rat" where
  "py_int_times_float n r = fl (fl (of_int n) * r)"

definition py_int :: "rat \<Rightarrow> int" where
  "py_int r = (if 0 \<le> r then \<lfloor>r\<rfloor> else \<lceil>r\<rceil>)"

subsection \<open>The image transform\<close>

definition MAX_WIDTH :: int where
  "MAX_WIDTH = 1200"

definition MAX_HEIGHT :: int where
  "MAX_HEIGHT = 800"

text \<open>The size computed in the resizing branch, for a width and height that are not zero.\<close>

definition scaled_size :: "int \<Rightarrow> int \<Rightarrow> int \<times> int" where
  "scaled_size w h =
     (let ratio = min (py_truediv MAX_WIDTH w) (py_truediv MAX_HEIGHT h)
      in (py_int (py_int_times_float w ratio), py_int (py_int_times_float h ratio)))"

text \<open>
  The imaging library: \<open>pil_open\<close> decodes a file and gives its size (\<open>None\<close>: it
  raises), \<open>pil_save\<close> gives the JPEG bytes of the image brought to the given size
  (\<open>None\<close>: resizing or encoding raises).
\<close>

record pil =
  pil_open :: "string \<Rightarrow> (int \<times> int) option"
  pil_save :: "string \<Rightarrow> int \<times> int \<Rightarrow> string option"

text \<open>
  \<open>resize_image\<close>: the encoded bytes and the final size, or \<open>None\<close> for
  \<open>(None, 0, 0)\<close>. A zero width or height in the resizing branch divides by zero,
  which the function catches like every other exception.
\<close>

definition resize_image :: "pil \<Rightarrow> string \<Rightarrow> (string \<times> int \<times> int) option" where
  "resize_image P file =
     (case pil_open P file of
        None \<Rightarrow> None
      | Some (w, h) \<Rightarrow>
          if MAX_WIDTH < w \<or> MAX_HEIGHT < h
          then (if w = 0 \<or> h = 0 then None
                else case pil_save P file (scaled_size w h) of
                  None \<Rightarrow> None
                | Some buf \<Rightarrow> Some (buf, scaled_size w h))
          else (case pil_save P file (w, h) of
                  None \<Rightarrow> None
                | Some buf \<Rightarrow> Some (buf, w, h)))"

text \<open>
  The smaller of the two bound-to-dimension ratios as an exact rational, to compare the
  computed size with.
\<close>

definition exact_ratio :: "int \<Rightarrow> int \<Rightarrow> rat" where
  "exact_ratio w h = min (of_int MAX_WIDTH / of_int w) (of_int MAX_HEIGHT / of_int h)"

text \<open>An imaging library that decodes every file as a picture of the given size.\<close>

definition sample_pil :: "int \<Rightarrow> int \<Rightarrow> pil" where
  "sample_pil w h = \<lparr> pil_open = (\<lambda>f. Some (w, h)), pil_save = (\<lambda>f sz. Some ''JPEG'') \<rparr>"

subsection \<open>State, collaborators and events\<close>

record istate =
  imported :: "(string \<times> string) list"
  failed :: "string list"
  skipped :: "string list"

text \<open>\<open>load_state\<close> without a state file.\<close>

definition fresh_istate :: istate where
  "fresh_istate = \<lparr> imported = [], failed = [], skipped = [] \<rparr>"

record article =
  art_id :: string
  art_slug :: string
  art_title :: "string option"

record wp_image =
  img_url :: string
  img_mime_type :: string
  img_alt_text :: string

datatype store_op = BucketExists | MakeBucket | PutObject string nat

datatype db_op =
    InsertMedia string string string nat int int string
  | LinkArticle string string
  | Commit
  | Rollback

text \<open>
  The events, newest first. An object store call returns (\<open>Some\<close>, with the answer of
  \<open>bucket_exists\<close>) or raises (\<open>None\<close>); a database call returns (\<open>True\<close>) or
  raises (\<open>False\<close>). \<open>Transform\<close> logs \<open>resize_image\<close> and whether it gave an image.
\<close>

datatype ievent =
    WpLookup string "wp_image option"
  | ImgGet string download
  | Transform string bool
  | Store store_op "bool option"
  | Db db_op bool
  | ISave istate

record iworld =
  ist :: istate
  files :: "string \<rightharpoonup> string"
  itr :: "ievent list"
  idead :: bool
  n_imported :: nat
  n_skipped :: nat
  n_failed :: nat

record ienv =
  wp_featured :: "ievent list \<Rightarrow> string \<Rightarrow> wp_image option"
  img_net :: "ievent list \<Rightarrow> string \<Rightarrow> download"
  url_suffix :: "string \<Rightarrow> string"
  imaging :: pil
  store :: "ievent list \<Rightarrow> store_op \<Rightarrow> bool option"
  db :: "ievent list \<Rightarrow> db_op \<Rightarrow> bool"
  uuid4 :: "ievent list \<Rightarrow> string"

definition ilog :: "ievent \<Rightarrow> iworld \<Rightarrow> iworld" where
  "ilog ev w = w\<lparr>itr := ev # itr w\<rparr>"

definition save_state :: "iworld \<Rightarrow> iworld" where
  "save_state w = ilog (ISave (ist w)) w"

subsection \<open>The image cache\<close>

text \<open>
  \<open>download_image\<close>: a cached file counts only when it is not empty; a failed download
  removes the file.
\<close>

definition download_image :: "ienv \<Rightarrow> string \<Rightarrow> string \<Rightarrow> iworld \<Rightarrow> string option \<times> iworld" where
  "download_image e url slug w =
     (let ext = (if url_suffix e url \<noteq> [] then url_suffix e url else ''.jpg'');
          cache_path = slug @ ext;
          hit = (case files w cache_path of None \<Rightarrow> False | Some b \<Rightarrow> 0 < length b)
      in if hit then (Some cache_path, w)
         else
           (let d = img_net e (itr w) url; w' = ilog (ImgGet url d) w in
            case d of
              Complete b \<Rightarrow> (Some cache_path, w'\<lparr>files := (files w')(cache_path \<mapsto> b)\<rparr>)
            | Partial b \<Rightarrow> (None, w'\<lparr>files := (files w')(cache_path := None)\<rparr>)
            | Refused \<Rightarrow> (None, w'\<lparr>files := (files w')(cache_path := None)\<rparr>)))"

subsection \<open>The two writes\<close>

definition store_call :: "ienv \<Rightarrow> store_op \<Rightarrow> iworld \<Rightarrow> bool option \<times> iworld" where
  "store_call e op w = (let r = store e (itr w) op in (r, ilog (Store op r) w))"

definition db_call :: "ienv \<Rightarrow> db_op \<Rightarrow> iworld \<Rightarrow> bool \<times> iworld" where
  "db_call e op w = (let r = db e (itr w) op in (r, ilog (Db op r) w))"

text \<open>\<open>upload_to_minio\<close>; the result tells whether it returned.\<close>

definition upload_to_minio :: "ienv \<Rightarrow> string \<Rightarrow> nat \<Rightarrow> iworld \<Rightarrow> bool \<times> iworld" where
  "upload_to_minio e object_key nbytes w =
     (case store_call e BucketExists w of
        (None, w1) \<Rightarrow> (False, w1)
      | (Some True, w1) \<Rightarrow>
          (case store_call e (PutObject object_key nbytes) w1 of (r, w3) \<Rightarrow> (r \<noteq> None, w3))
      | (Some False, w1) \<Rightarrow>
          (case store_call e MakeBucket w1 of
             (None, w2) \<Rightarrow> (False, w2)
           | (Some b, w2) \<Rightarrow>
               (case store_call e (PutObject object_key nbytes) w2 of (r, w3) \<Rightarrow> (r \<noteq> None, w3))))"

text \<open>
  The \<open>try\<close> block of step 5: insert, link, commit; the result tells whether all three
  returned.
\<close>

definition insert_records :: "ienv \<Rightarrow> db_op \<Rightarrow> db_op \<Rightarrow> iworld \<Rightarrow> bool \<times> iworld" where
  "insert_records e ins lnk w =
     (case db_call e ins w of
        (False, w1) \<Rightarrow> (False, w1)
      | (True, w1) \<Rightarrow>
          (case db_call e lnk w1 of
             (False, w2) \<Rightarrow> (False, w2)
           | (True, w2) \<Rightarrow> db_call e Commit w2))"

subsection \<open>The main loop\<close>

definition fail_article :: "string \<Rightarrow> iworld \<Rightarrow> iworld" where
  "fail_article slug w = w\<lparr>ist := (ist w)\<lparr>failed := failed (ist w) @ [slug]\<rparr>, n_failed := n_failed w + 1\<rparr>"

text \<open>
  Steps 4 and 5 of the loop body for a transformed image: the object store write, the
  database records, then the entry in \<open>imported\<close> and the periodic save.
\<close>

definition publish_image :: "ienv \<Rightarrow> article \<Rightarrow> wp_image \<Rightarrow> string \<times> int \<times> int \<Rightarrow> iworld \<Rightarrow> iworld" where
  "publish_image e art img res w2 =
     (case res of (image_buf, width, height) \<Rightarrow>
        let slug = art_slug art;
            nbytes = length image_buf;
            media_id = uuid4 e (itr w2);
            file_name = media_id @ ''.jpg'';
            object_key = ''articles/'' @ file_name
        in case upload_to_minio e object_key nbytes w2 of
          (False, w3) \<Rightarrow> fail_article slug w3
        | (True, w3) \<Rightarrow>
            (case insert_records e
                    (InsertMedia media_id file_name object_key nbytes width height
                       (img_alt_text img))
                    (LinkArticle (art_id art) media_id) w3 of
               (False, w4) \<Rightarrow>
                 (case db_call e Rollback w4 of
                    (False, w5) \<Rightarrow> w5\<lparr>idead := True\<rparr>
                  | (True, w5) \<Rightarrow> fail_article slug w5)
             | (True, w4) \<Rightarrow>
                 (let w5 = w4\<lparr>ist := (ist w4)\<lparr>imported :=
                              AList.update slug media_id (imported (ist w4))\<rparr>,
                            n_imported := n_imported w4 + 1\<rparr>
                  in if n_imported w5 mod 10 = 0 then save_state w5 else w5)))"

text \<open>One pass of the loop body.\<close>

definition import_one :: "ienv \<Rightarrow> bool \<Rightarrow> article \<Rightarrow> iworld \<Rightarrow> iworld" where
  "import_one e dry art w =
     (let slug = art_slug art in
      if map_of (imported (ist w)) slug \<noteq> None then w\<lparr>n_skipped := n_skipped w + 1\<rparr>
      else
        let wp_img = wp_featured e (itr w) slug; w0 = ilog (WpLookup slug wp_img) w in
        case wp_img of
          None \<Rightarrow> w0\<lparr>ist := (ist w0)\<lparr>skipped := skipped (ist w0) @ [slug]\<rparr>,
                     n_skipped := n_skipped w0 + 1\<rparr>
        | Some img \<Rightarrow>
            if dry then w0\<lparr>n_imported := n_imported w0 + 1\<rparr>
            else case download_image e (img_url img) slug w0 of
              (None, w1) \<Rightarrow> fail_article slug w1
            | (Some local_path, w1) \<Rightarrow>
                (case resize_image (imaging e)
                        (case files w1 local_path of None \<Rightarrow> [] | Some b \<Rightarrow> b) of
                   None \<Rightarrow> fail_article slug (ilog (Transform local_path False) w1)
                 | Some res \<Rightarrow> publish_image e art img res (ilog (Transform local_path True) w1)))"

fun import_loop :: "ienv \<Rightarrow> bool \<Rightarrow> article list \<Rightarrow> iworld \<Rightarrow> iworld" where
  "import_loop e dry [] w = w"
| "import_loop e dry (art # arts) w =
     (let w' = import_one e dry art w in if idead w' then w' else import_loop e dry arts w')"

text \<open>
  \<open>main\<close>, from the loaded state, the cache directory and the articles the database
  query returned: the loop, then \<open>save_state\<close>.
\<close>

definition import_main :: "ienv \<Rightarrow> bool \<Rightarrow> int \<Rightarrow> istate \<Rightarrow> (string \<rightharpoonup> string) \<Rightarrow> article list \<Rightarrow> iworld" where
  "import_main e dry limit s0 dir articles =
     (let arts = (if 0 < limit then take (nat limit) articles else articles);
          w = import_loop e dry arts
                \<lparr> ist = s0, files = dir, itr = [], idead = False,
                  n_imported = 0, n_skipped = 0, n_failed = 0 \<rparr>
      in if idead w then w else save_state w)"

section \<open>Properties of traces\<close>

text \<open>The creation a call event stands for, when the caller took its answer as one.\<close>

fun created :: "event \<Rightarrow> (slot \<times> string \<times> pyval) option" where
  "created (Call (Some (sl, k)) rq (Resp code d)) =
     (if accepted rq code d then Some (sl, k, data_id d) else None)"
| "created _ = None"




subsection \<open>What the state file holds when a run is cut\<close>

text \<open>
  The events of a trace are taken as indivisible: a remote call is in the trace once it
  has returned, and a write of the state file once the file holds the whole new content.
  A run that is killed leaves a suffix of its trace (the trace is newest first), a cut.
\<close>

text \<open>The mappings of a ledger, without the list of completed steps.\<close>

definition entries :: "mstate \<Rightarrow> mstate" where
  "entries s = s\<lparr>completed_steps := []\<rparr>"

text \<open>
  The state file after the events of a trace, from the file \<open>s0\<close> the run has loaded:
  the content of the newest write.
\<close>

fun disk :: "mstate \<Rightarrow> event list \<Rightarrow> mstate" where
  "disk s0 [] = s0"
| "disk s0 (Save s # t) = s"
| "disk s0 (e # t) = disk s0 t"

text \<open>The loaded ledger with every creation of the trace entered, oldest first.\<close>

fun replay :: "mstate \<Rightarrow> event list \<Rightarrow> mstate" where
  "replay s0 [] = s0"
| "replay s0 (e # t) =
     (case created e of None \<Rightarrow> replay s0 t | Some (sl, k, v) \<Rightarrow> put sl k v (replay s0 t))"

text \<open>The state file holds the mapping of every creation of the trace.\<close>

definition synced :: "mstate \<Rightarrow> event list \<Rightarrow> bool" where
  "synced s0 t = (entries (disk s0 t) = entries (replay s0 t))"

text \<open>
  A cut that has lost at most one mapping: the state file holds every creation, or the
  newest event is a creation and the state file holds every creation before it.
\<close>

definition cut_ok :: "mstate \<Rightarrow> event list \<Rightarrow> bool" where
  "cut_ok s0 t =
     (synced s0 t \<or> (case t of [] \<Rightarrow> False | e # t' \<Rightarrow> created e \<noteq> None \<and> synced s0 t'))"

fun cuts_ok :: "mstate \<Rightarrow> event list \<Rightarrow> bool" where
  "cuts_ok s0 [] = cut_ok s0 []"
| "cuts_ok s0 (e # t) = (cut_ok s0 (e # t) \<and> cuts_ok s0 t)"

text \<open>
  The invariant of a run between two operations: the ledger in memory is the replay of
  the trace, the state file holds it, and every cut so far has lost at most one mapping.
\<close>

definition ledger_inv :: "mstate \<Rightarrow> world \<Rightarrow> bool" where
  "ledger_inv s0 w =
     (entries (st w) = entries (replay s0 (tr w)) \<and> synced s0 (tr w) \<and> cuts_ok s0 (tr w))"

subsection \<open>Traces of wp\_import\_images.py\<close>

text \<open>An event that records a stage going wrong.\<close>

fun failure :: "ievent \<Rightarrow> bool" where
  "failure (ImgGet u (Complete b)) = False"
| "failure (ImgGet u d) = True"
| "failure (Transform p ok) = (\<not> ok)"
| "failure (Store op r) = (r = None)"
| "failure (Db op ok) = (\<not> ok)"
| "failure _ = False"

text \<open>
  On a trace (newest first): the event right before every insert of a media record is
  the object store write of the same key and size, and that write returned.
\<close>

fun put_before_insert :: "ievent list \<Rightarrow> bool" where
  "put_before_insert [] = True"
| "put_before_insert (Db (InsertMedia m f k n wd ht a) r # es) =
     ((case es of Store (PutObject k' n') (Some b) # es' \<Rightarrow> k' = k \<and> n' = n | _ \<Rightarrow> False)
      \<and> put_before_insert es)"
| "put_before_insert (e # es) = put_before_insert es"

text \<open>The events one pass adds.\<close>

definition inew :: "iworld \<Rightarrow> iworld \<Rightarrow> ievent list" where
  "inew w w' = take (length (itr w') - length (itr w)) (itr w')"



text \<open>
  The commits that have returned since the newest write of the state file: the imports
  that the state file does not hold yet.
\<close>

fun unsaved_commits :: "ievent list \<Rightarrow> nat" where
  "unsaved_commits [] = 0"
| "unsaved_commits (ISave s # t) = 0"
| "unsaved_commits (Db Commit True # t) = Suc (unsaved_commits t)"
| "unsaved_commits (e # t) = unsaved_commits t"

text \<open>At every cut of the trace at most ten imports are missing from the state file.\<close>

fun commits_bounded :: "ievent list \<Rightarrow> bool" where
  "commits_bounded [] = True"
| "commits_bounded (e # t) = (unsaved_commits (e # t) \<le> 10 \<and> commits_bounded t)"

text \<open>
  The invariant of the import loop between two passes: the imports missing from the
  state file are at most the count of imports modulo 10; a dry run commits nothing.
\<close>

definition batch_inv :: "bool \<Rightarrow> iworld \<Rightarrow> bool" where
  "batch_inv dry w =
     (commits_bounded (itr w) \<and>
      (if dry then unsaved_commits (itr w) = 0 else unsaved_commits (itr w) \<le> n_imported w mod 10))"

subsection \<open>Sample collaborators for wp\_import\_images.py\<close>

text \<open>
  A source that has a featured image for every article, an imaging library that decodes
  an 800 by 600 picture, a database that accepts every statement, identifiers numbered
  by the length of the trace, and an object store that answers or, when \<open>store_up\<close> is
  false, raises on every call.
\<close>

definition sample_ienv :: "bool \<Rightarrow> ienv" where
  "sample_ienv store_up =
     \<lparr> wp_featured = (\<lambda>t slug. Some \<lparr> img_url = ''https://botschaftangola.de/wp-content/uploads/'' @ slug @ ''.jpg'',
                                         img_mime_type = ''image/jpeg'', img_alt_text = [] \<rparr>),
       img_net = (\<lambda>t url. Complete ''JFIF''),
       url_suffix = (\<lambda>url. ''.jpg''),
       imaging = \<lparr> pil_open = (\<lambda>f. Some (800, 600)), pil_save = (\<lambda>f sz. Some ''JPEG'') \<rparr>,
       store = (\<lambda>t op. if store_up then Some True else None),
       db = (\<lambda>t op. True),
       uuid4 = (\<lambda>t. ''id-'' @ nat_str (length t)) \<rparr>"

text \<open>A source without featured images.\<close>

definition bare_ienv :: ienv where
  "bare_ienv = (sample_ienv True)\<lparr> wp_featured := (\<lambda>t slug. None) \<rparr>"

definition sample_article :: "string \<Rightarrow> article" where
  "sample_article slug = \<lparr> art_id = ''article-'' @ slug, art_slug = slug, art_title = Some slug \<rparr>"

definition iworld0 :: iworld where
  "iworld0 = \<lparr> ist = fresh_istate, files = Map.empty, itr = [], idead = False,
               n_imported = 0, n_skipped = 0, n_failed = 0 \<rparr>"

text \<open>
  What a stage that only reads, stores or rolls back does between two worlds: the state
  and the import counter stay, the events it adds hold no insert of a media record, and
  none of them is a failure when the stage went well.
\<close>

definition stage :: "iworld \<Rightarrow> iworld \<Rightarrow> bool \<Rightarrow> bool" where
  "stage w w' ok = (ist w' = ist w \<and> n_imported w' = n_imported w \<and>
      (\<exists>new. itr w' = new @ itr w \<and> (\<forall>ev \<in> set new. \<forall>m f k n wd ht a r. ev \<noteq> Db (InsertMedia m f k n wd ht a) r)
         \<and> (ok \<longrightarrow> (\<forall>ev \<in> set new. \<not> failure ev))))"

text \<open>The remote write calls of a trace, and its writes of the state file.\<close>

fun is_call :: "event \<Rightarrow> bool" where
  "is_call (Call tag rq r) = True"
| "is_call _ = False"


text \<open>An article of the source with the given category ids and nothing else of note.\<close>

definition sample_post :: "int list \<Rightarrow> wp_post" where
  "sample_post cats = \<lparr> post_id = 101, post_slug = ''noticia'', post_title = ''Noticia'',
     post_content = ''texto'', post_excerpt = [], post_categories = cats,
     post_featured_media = None \<rparr>"

section \<open>The state ledger: marking steps\<close>

lemma mark_step_completed:
  "completed_steps (st (mark_step n w)) =
     (if n \<in> set (completed_steps (st w)) then completed_steps (st w)
      else completed_steps (st w) @ [n])"
  by (simp add: mark_step_def save_def)

lemma mark_step_marks: "is_done (st (mark_step n w)) n"
  by (simp add: is_done_def mark_step_completed)

text \<open>
  C10. \<open>mark_step\<close> appends the step name only when it is absent: the list of completed
  steps it leaves is the old one when the name was there, the old one with the name
  appended otherwise; a list without duplicates stays without duplicates; and a second
  call for the same name changes nothing, neither the state nor the state file (no
  further \<open>Save\<close> in the trace).
\<close>

theorem mark_step_idempotent:
  "completed_steps (st (mark_step n w)) =
     (if n \<in> set (completed_steps (st w)) then completed_steps (st w)
      else completed_steps (st w) @ [n])
   \<and> (distinct (completed_steps (st w)) \<longrightarrow> distinct (completed_steps (st (mark_step n w))))
   \<and> mark_step n (mark_step n w) = mark_step n w"
proof -
  have twice: "mark_step n (mark_step n w) = mark_step n w"
    using mark_step_marks [of n w] by (simp add: mark_step_def [of n "mark_step n w"] is_done_def)
  show ?thesis
    using twice by (simp add: mark_step_completed)
qed

theorem mark_step_idempotent_witness:
  "distinct (completed_steps (st (mark_step ''posts''
      \<lparr>st = empty_state\<lparr>completed_steps := [''categories'']\<rparr>, cache = Map.empty, tr = [], dead = False\<rparr>)))
   \<and> completed_steps (st (mark_step ''posts''
      \<lparr>st = empty_state\<lparr>completed_steps := [''categories'']\<rparr>, cache = Map.empty, tr = [], dead = False\<rparr>))
     = [''categories'', ''posts'']"
  using mark_step_idempotent [of "''posts''"
      "\<lparr>st = empty_state\<lparr>completed_steps := [''categories'']\<rparr>, cache = Map.empty, tr = [], dead = False\<rparr>"]
  by (simp add: empty_state_def)

section \<open>Excerpt truncation\<close>

lemma rsplit1_head_split:
  assumes "c \<in> set t"
  shows "t = hd (py_rsplit1 c t) @ c # rev (takeWhile (\<lambda>x. x \<noteq> c) (rev t))"
proof -
  let ?P = "\<lambda>x. x \<noteq> c"
  let ?d = "dropWhile ?P (rev t)"
  from assms have ne: "?d \<noteq> []" by (simp add: dropWhile_eq_Nil_conv)
  then have "\<not> ?P (hd ?d)" by (rule hd_dropWhile)
  with ne have d: "?d = c # tl ?d" by (cases ?d) auto
  have "rev t = takeWhile ?P (rev t) @ ?d" by simp
  then have "t = rev ?d @ rev (takeWhile ?P (rev t))"
    by (metis rev_append rev_rev_ident)
  also have "rev ?d = rev (tl ?d) @ [c]" by (subst d) simp
  finally show ?thesis using assms by (simp add: py_rsplit1_def)
qed

lemma rsplit1_head_nosep: "c \<notin> set t \<Longrightarrow> hd (py_rsplit1 c t) = t"
  by (simp add: py_rsplit1_def)

lemma rsplit1_head_length: "length (hd (py_rsplit1 c t)) \<le> length t"
proof (cases "c \<in> set t")
  case True
  from rsplit1_head_split [OF True]
  have "length t = length (hd (py_rsplit1 c t) @ c # rev (takeWhile (\<lambda>x. x \<noteq> c) (rev t)))"
    by simp
  then show ?thesis by simp
next
  case False
  then show ?thesis by (simp add: rsplit1_head_nosep)
qed

text \<open>
  C7, as amended. For a non-negative \<open>max_len\<close> and an extracted text longer than
  \<open>max_len\<close>, the excerpt has at most \<open>max_len + 3\<close> characters and is a prefix of the
  text followed by the marker; when the first \<open>max_len\<close> characters hold a space, the
  prefix ends right before a space of the text (a word boundary); when they hold none,
  the prefix is exactly the first \<open>max_len\<close> characters, wherever that falls.
\<close>

theorem excerpt_truncation:
  assumes "content \<noteq> []" and "0 \<le> max_len"
    and "max_len < int (length (get_text_sep H content))"
  shows "length (wp_extract_excerpt H content max_len) \<le> nat max_len + 3
    \<and> (\<exists>p rest. wp_extract_excerpt H content max_len = p @ ''...''
          \<and> get_text_sep H content = p @ rest)
    \<and> (CHR '' '' \<in> set (take (nat max_len) (get_text_sep H content)) \<longrightarrow>
         (\<exists>p rest. wp_extract_excerpt H content max_len = p @ ''...''
            \<and> get_text_sep H content = p @ CHR '' '' # rest))
    \<and> (CHR '' '' \<notin> set (take (nat max_len) (get_text_sep H content)) \<longrightarrow>
         wp_extract_excerpt H content max_len = take (nat max_len) (get_text_sep H content) @ ''...'')"
proof -
  let ?text = "get_text_sep H content"
  let ?t = "take (nat max_len) ?text"
  let ?h = "hd (py_rsplit1 CHR '' '' ?t)"
  have r: "wp_extract_excerpt H content max_len = ?h @ ''...''"
    using assms by (simp add: wp_extract_excerpt_def py_slice_to_def)
  have len: "length ?h \<le> nat max_len"
    using rsplit1_head_length [of "CHR '' ''" ?t] by simp
  have whole: "?text = ?t @ drop (nat max_len) ?text" by simp
  have sp: "\<exists>rest. ?text = ?h @ CHR '' '' # rest" if "CHR '' '' \<in> set ?t"
  proof -
    from rsplit1_head_split [OF that] obtain tl' where "?t = ?h @ CHR '' '' # tl'" by blast
    with whole have "?text = ?h @ CHR '' '' # (tl' @ drop (nat max_len) ?text)"
      by (metis append_Cons append_assoc)
    then show ?thesis by blast
  qed
  have nosp: "?h = ?t" if "CHR '' '' \<notin> set ?t"
    using that by (rule rsplit1_head_nosep)
  have pre: "\<exists>rest. ?text = ?h @ rest"
  proof (cases "CHR '' '' \<in> set ?t")
    case True
    with sp show ?thesis by blast
  next
    case False
    with nosp whole show ?thesis by metis
  qed
  show ?thesis
    using r len sp nosp pre by auto
qed

theorem excerpt_truncation_witness:
  "wp_extract_excerpt plain_html ''hello brave world'' 13 = ''hello brave...''
   \<and> length (wp_extract_excerpt plain_html ''hello brave world'' 13) \<le> 16"
  using excerpt_truncation [of "''hello brave world''" 13 plain_html]
  by (simp add: plain_html_def wp_extract_excerpt_def py_slice_to_def py_rsplit1_def)

text \<open>
  The claim as stated fails where the first \<open>max_len\<close> characters hold no space: the
  word \<open>abcdef\<close> cut at 3 gives \<open>abc...\<close>, in the middle of the word.
\<close>

theorem excerpt_midword_counterexample:
  "wp_extract_excerpt plain_html ''abcdef'' 3 = ''abc...''
   \<and> \<not> (\<exists>p rest. wp_extract_excerpt plain_html ''abcdef'' 3 = p @ ''...''
          \<and> get_text_sep plain_html ''abcdef'' = p @ CHR '' '' # rest)"
proof -
  have r: "wp_extract_excerpt plain_html ''abcdef'' 3 = ''abc...''"
    by (simp add: plain_html_def wp_extract_excerpt_def py_slice_to_def py_rsplit1_def)
  have "CHR '' '' \<notin> set ''abcdef''" by simp
  then have "\<And>p rest. ''abcdef'' \<noteq> p @ CHR '' '' # rest"
    by (metis in_set_conv_decomp)
  then show ?thesis using r by (simp add: plain_html_def)
qed

section \<open>Category resolution in the article payload\<close>

lemma resolve_category_first:
  "\<forall>x \<in> set pre. map_of m (int_str x) = None \<Longrightarrow> map_of m (int_str c) = Some v
   \<Longrightarrow> resolve_category m (pre @ c # rest) = v"
  by (induction pre) auto

lemma resolve_category_none:
  "\<forall>x \<in> set cats. map_of m (int_str x) = None \<Longrightarrow> resolve_category m cats = PNone"
  by (induction cats) auto

lemma post_payload_category:
  "jfield (post_payload H a s p) ''categoryId'' =
     (let v = resolve_category (wp_categories s) (post_categories p)
      in if truthy v then Some (jv v) else None)"
  by (simp add: post_payload_def Let_def opt_field_def)

text \<open>
  C9, as amended. The category reference is the value stored under the first listed
  source category id whose key is in the category map (first-found-wins); the payload
  carries it as \<open>categoryId\<close> when that value is truthy, and has no \<open>categoryId\<close>
  when it is not (null, 0, empty) or when no listed category is in the map.
\<close>

theorem category_first_found:
  "(post_categories p = pre @ c # rest
      \<and> (\<forall>x \<in> set pre. map_of (wp_categories s) (int_str x) = None)
      \<and> map_of (wp_categories s) (int_str c) = Some v
     \<longrightarrow> jfield (post_payload H a s p) ''categoryId'' = (if truthy v then Some (jv v) else None))
   \<and> ((\<forall>x \<in> set (post_categories p). map_of (wp_categories s) (int_str x) = None)
     \<longrightarrow> jfield (post_payload H a s p) ''categoryId'' = None)"
  by (auto simp: post_payload_category resolve_category_first resolve_category_none)

theorem category_first_found_witness:
  "jfield (post_payload plain_html PNone (empty_state\<lparr>wp_categories := [(''7'', PStr ''c7'')]\<rparr>)
      (sample_post [5, 7])) ''categoryId'' = Some (JStr ''c7'')
   \<and> jfield (post_payload plain_html PNone (empty_state\<lparr>wp_categories := [(''7'', PStr ''c7'')]\<rparr>)
      (sample_post [5])) ''categoryId'' = None"
  using category_first_found [of "sample_post [5, 7]" "[5]" 7 "[]"
      "empty_state\<lparr>wp_categories := [(''7'', PStr ''c7'')]\<rparr>" "PStr ''c7''" plain_html PNone]
    category_first_found [of "sample_post [5]" "[]" 5 "[]"
      "empty_state\<lparr>wp_categories := [(''7'', PStr ''c7'')]\<rparr>" "PNone" plain_html PNone]
  by (simp add: sample_post_def int_str_def nat_str.simps digit_char_def)

text \<open>
  The claim as stated fails where the first listed category found in the map has a null
  target id: the loop stops there, the guard on the payload drops the field, and a later
  category with a usable target id is not consulted.
\<close>

theorem category_null_counterexample:
  "map_of (wp_categories (empty_state\<lparr>wp_categories := [(''5'', PNone), (''7'', PStr ''c7'')]\<rparr>)) (int_str 5) = Some PNone
   \<and> map_of (wp_categories (empty_state\<lparr>wp_categories := [(''5'', PNone), (''7'', PStr ''c7'')]\<rparr>)) (int_str 7) = Some (PStr ''c7'')
   \<and> jfield (post_payload plain_html PNone
        (empty_state\<lparr>wp_categories := [(''5'', PNone), (''7'', PStr ''c7'')]\<rparr>)
        (sample_post [5, 7])) ''categoryId'' = None"
  by (simp add: post_payload_category sample_post_def int_str_def nat_str.simps digit_char_def)

section \<open>wp\_migrate.py: every creation is saved at once\<close>





















section \<open>wp\_import\_images.py: the publish sequence\<close>

lemma download_image_stage:
  "download_image e url slug w = (r, w') \<Longrightarrow> stage w w' (r \<noteq> None)"
  by (auto simp: stage_def download_image_def Let_def ilog_def split: if_splits download.splits)

lemma upload_to_minio_stage:
  "upload_to_minio e k n w = (ok, w') \<Longrightarrow>
     stage w w' ok \<and> (ok \<longrightarrow> (\<exists>b rest. itr w' = Store (PutObject k n) (Some b) # rest))"
  by (auto simp: stage_def upload_to_minio_def store_call_def Let_def ilog_def
      split: option.splits bool.splits prod.splits)

lemma insert_records_tr:
  "insert_records e (InsertMedia m f k n wd ht a) (LinkArticle x y) w = (ok, w') \<Longrightarrow>
     ist w' = ist w \<and> n_imported w' = n_imported w \<and>
     (\<exists>new. itr w' = new @ Db (InsertMedia m f k n wd ht a) (db e (itr w) (InsertMedia m f k n wd ht a)) # itr w
        \<and> (\<forall>ev \<in> set new. \<forall>m f k n wd ht a r. ev \<noteq> Db (InsertMedia m f k n wd ht a) r)
        \<and> (ok \<longrightarrow> db e (itr w) (InsertMedia m f k n wd ht a) \<and> (\<forall>ev \<in> set new. \<not> failure ev)))"
  by (auto simp: insert_records_def db_call_def Let_def ilog_def
      split: bool.splits prod.splits if_splits)

lemma pbi_append:
  "\<forall>ev \<in> set new. \<forall>m f k n wd ht a r. ev \<noteq> Db (InsertMedia m f k n wd ht a) r
   \<Longrightarrow> put_before_insert (new @ t) = put_before_insert t"
proof (induction new)
  case Nil
  then show ?case by simp
next
  case (Cons ev new)
  have "put_before_insert ((ev # new) @ t) = put_before_insert (new @ t)"
  proof (cases ev)
    case (Db op r)
    with Cons.prems show ?thesis by (cases op) auto
  qed simp_all
  with Cons show ?case by simp
qed

lemma inew_append: "itr w' = new @ itr w \<Longrightarrow> inew w w' = new"
  by (simp add: inew_def)

lemma stage_trans: "stage w w1 a \<Longrightarrow> stage w1 w2 b \<Longrightarrow> stage w w2 (a \<and> b)"
  by (fastforce simp: stage_def)

lemma stage_refl: "stage w w True"
  by (simp add: stage_def)

lemma stage_pbi: "stage w w' ok \<Longrightarrow> put_before_insert (itr w') = put_before_insert (itr w)"
  by (auto simp: stage_def pbi_append)

lemma fail_article_simps [simp]:
  "itr (fail_article s w) = itr w" "imported (ist (fail_article s w)) = imported (ist w)"
  "idead (fail_article s w) = idead w"
  by (simp_all add: fail_article_def)

lemma ilog_simps [simp]:
  "itr (ilog ev w) = ev # itr w" "ist (ilog ev w) = ist w" "n_imported (ilog ev w) = n_imported w"
  "files (ilog ev w) = files w" "idead (ilog ev w) = idead w"
  by (simp_all add: ilog_def)

lemma insert_records_commit:
  "insert_records e ins lnk w = (True, w') \<Longrightarrow> \<exists>t. itr w' = Db Commit True # t"
  by (auto simp: insert_records_def db_call_def Let_def ilog_def
      split: bool.splits prod.splits if_splits)

lemma publish_summary:
  "\<exists>new. itr (publish_image e art img res w) = new @ itr w
      \<and> (put_before_insert (itr w) \<longrightarrow> put_before_insert (itr (publish_image e art img res w)))
      \<and> (imported (ist (publish_image e art img res w)) = imported (ist w)
          \<or> (\<forall>ev \<in> set new. \<not> failure ev)
            \<and> (\<exists>t. itr (publish_image e art img res w) =
                  (if n_imported (publish_image e art img res w) mod 10 = 0
                   then [ISave (ist (publish_image e art img res w))] else []) @ Db Commit True # t))"
proof -
  define w' where "w' = publish_image e art img res w"
  have "\<exists>new. itr w' = new @ itr w
      \<and> (put_before_insert (itr w) \<longrightarrow> put_before_insert (itr w'))
      \<and> (imported (ist w') = imported (ist w)
          \<or> (\<forall>ev \<in> set new. \<not> failure ev)
            \<and> (\<exists>t. itr w' = (if n_imported w' mod 10 = 0 then [ISave (ist w')] else [])
                  @ Db Commit True # t))"
  proof -
  obtain buf wd ht where res: "res = (buf, wd, ht)" by (cases res) auto
  define mid where "mid = uuid4 e (itr w)"
  define key where "key = ''articles/'' @ mid @ ''.jpg''"
  define ins where "ins = InsertMedia mid (mid @ ''.jpg'') key (length buf) wd ht (img_alt_text img)"
  obtain ok w3 where u: "upload_to_minio e key (length buf) w = (ok, w3)" by force
  from upload_to_minio_stage [OF u]
  have s3: "stage w w3 ok" and hd3: "ok \<Longrightarrow> \<exists>b rest. itr w3 = Store (PutObject key (length buf)) (Some b) # rest"
    by auto
  from s3 obtain new3 where n3: "itr w3 = new3 @ itr w" "ist w3 = ist w"
    and ni3: "\<forall>ev \<in> set new3. \<forall>m f k n wd ht a r. ev \<noteq> Db (InsertMedia m f k n wd ht a) r"
    and nf3: "ok \<Longrightarrow> \<forall>ev \<in> set new3. \<not> failure ev"
    by (auto simp: stage_def)
  have p3: "put_before_insert (itr w3) = put_before_insert (itr w)"
    using s3 by (rule stage_pbi)
  show ?thesis
  proof (cases ok)
    case False
    then have "w' = fail_article (art_slug art) w3"
      using u by (simp add: w'_def publish_image_def res Let_def key_def mid_def)
    then show ?thesis using n3 p3 by simp
  next
    case True
    obtain ok4 w4 where i: "insert_records e ins (LinkArticle (art_id art) mid) w3 = (ok4, w4)" by force
    from insert_records_tr [OF i [unfolded ins_def]] obtain new4 where
      n4: "itr w4 = new4 @ Db ins (db e (itr w3) ins) # itr w3" "ist w4 = ist w3"
      and ni4: "\<forall>ev \<in> set new4. \<forall>m f k n wd ht a r. ev \<noteq> Db (InsertMedia m f k n wd ht a) r"
      and nf4: "ok4 \<Longrightarrow> db e (itr w3) ins \<and> (\<forall>ev \<in> set new4. \<not> failure ev)"
      by (auto simp: ins_def)
    from hd3 [OF True] obtain b rest where h: "itr w3 = Store (PutObject key (length buf)) (Some b) # rest"
      by blast
    have p4: "put_before_insert (itr w4) = put_before_insert (itr w)"
      using n4(1) ni4 p3 by (simp add: pbi_append) (simp add: h ins_def)
    show ?thesis
    proof (cases ok4)
      case False
      obtain r5 w5 where r: "db_call e Rollback w4 = (r5, w5)" by force
      then have t5: "itr w5 = Db Rollback r5 # itr w4" "ist w5 = ist w4"
        by (auto simp: db_call_def Let_def)
      have "w' = (if r5 then fail_article (art_slug art) w5 else w5\<lparr>idead := True\<rparr>)"
        using u i r True False
        by (simp add: w'_def publish_image_def res Let_def key_def mid_def ins_def)
      then show ?thesis using t5 n4 n3 p4 by auto
    next
      case ok4: True
      define w5 where "w5 = w4\<lparr>ist := (ist w4)\<lparr>imported :=
          AList.update (art_slug art) mid (imported (ist w4))\<rparr>, n_imported := n_imported w4 + 1\<rparr>"
      have "w' = (if n_imported w5 mod 10 = 0 then save_state w5 else w5)"
        using u i True ok4
        by (simp add: w'_def publish_image_def res Let_def key_def mid_def ins_def w5_def)
      moreover have "itr w5 = (new4 @ Db ins True # new3) @ itr w"
        using n4 n3 nf4 [OF ok4] by (simp add: w5_def)
      moreover have "\<forall>ev \<in> set (new4 @ Db ins True # new3). \<not> failure ev"
        using nf4 [OF ok4] nf3 [OF True] by auto
      moreover have "put_before_insert (itr w5) = put_before_insert (itr w)"
        using p4 by (simp add: w5_def)
      moreover have "\<exists>t. itr w5 = Db Commit True # t"
      proof -
        from i ok4 have "insert_records e ins (LinkArticle (art_id art) mid) w3 = (True, w4)"
          by simp
        from insert_records_commit [OF this] show ?thesis by (simp add: w5_def)
      qed
      ultimately show ?thesis
        by (cases "n_imported w5 mod 10 = 0") (auto simp: save_state_def)
    qed
  qed
qed
  then show ?thesis unfolding w'_def .
qed

lemma import_one_summary:
  "\<exists>new. itr (import_one e dry art w) = new @ itr w
      \<and> (put_before_insert (itr w) \<longrightarrow> put_before_insert (itr (import_one e dry art w)))
      \<and> (imported (ist (import_one e dry art w)) = imported (ist w)
          \<or> (\<forall>ev \<in> set new. \<not> failure ev)
            \<and> (\<exists>t. itr (import_one e dry art w) =
                  (if n_imported (import_one e dry art w) mod 10 = 0
                   then [ISave (ist (import_one e dry art w))] else []) @ Db Commit True # t))"
proof (cases "map_of (imported (ist w)) (art_slug art) \<noteq> None")
  case True
  then show ?thesis by (simp add: import_one_def Let_def)
next
  case unm: False
  let ?slug = "art_slug art"
  show ?thesis
  proof (cases "wp_featured e (itr w) ?slug")
    case None
    then show ?thesis using unm by (simp add: import_one_def Let_def)
  next
    case (Some img)
    let ?w0 = "ilog (WpLookup ?slug (Some img)) w"
    show ?thesis
    proof (cases dry)
      case True
      then show ?thesis using unm Some by (simp add: import_one_def Let_def)
    next
      case False
      obtain r1 w1 where d: "download_image e (img_url img) ?slug ?w0 = (r1, w1)" by force
      from download_image_stage [OF d] obtain new1 where
        n1: "itr w1 = new1 @ WpLookup ?slug (Some img) # itr w" "ist w1 = ist w"
        and ni1: "\<forall>ev \<in> set new1. \<forall>m f k n wd ht a r. ev \<noteq> Db (InsertMedia m f k n wd ht a) r"
        and nf1: "r1 \<noteq> None \<Longrightarrow> \<forall>ev \<in> set new1. \<not> failure ev"
        by (auto simp: stage_def)
      have p1: "put_before_insert (itr w1) = put_before_insert (itr w)"
        using n1(1) ni1 by (simp add: pbi_append)
      show ?thesis
      proof (cases r1)
        case None
        then have "import_one e dry art w = fail_article ?slug w1"
          using unm Some False d by (simp add: import_one_def Let_def)
        then show ?thesis using n1 p1 by simp
      next
        case lp: (Some local_path)
        let ?file = "case files w1 local_path of None \<Rightarrow> [] | Some b \<Rightarrow> b"
        show ?thesis
        proof (cases "resize_image (imaging e) ?file")
          case None
          then have "import_one e dry art w = fail_article ?slug (ilog (Transform local_path False) w1)"
            using unm Some False d lp by (simp add: import_one_def Let_def)
          then show ?thesis using n1 p1 by simp
        next
          case res: (Some res)
          let ?w2 = "ilog (Transform local_path True) w1"
          have eq: "import_one e dry art w = publish_image e art img res ?w2"
            using unm Some False d lp res by (simp add: import_one_def Let_def)
          from publish_summary [of e art img res ?w2] obtain new5 where
            n5: "itr (publish_image e art img res ?w2) = new5 @ itr ?w2"
            and p5: "put_before_insert (itr ?w2) \<longrightarrow> put_before_insert (itr (publish_image e art img res ?w2))"
            and f5: "imported (ist (publish_image e art img res ?w2)) = imported (ist ?w2)
                \<or> (\<forall>ev \<in> set new5. \<not> failure ev)
                  \<and> (\<exists>t. itr (publish_image e art img res ?w2) =
                        (if n_imported (publish_image e art img res ?w2) mod 10 = 0
                         then [ISave (ist (publish_image e art img res ?w2))] else []) @ Db Commit True # t)"
            by blast
          have "itr (import_one e dry art w) = (new5 @ Transform local_path True # new1 @ [WpLookup ?slug (Some img)]) @ itr w"
            using eq n5 n1 by simp
          moreover have "put_before_insert (itr w) \<longrightarrow> put_before_insert (itr (import_one e dry art w))"
            using eq p5 p1 by simp
          moreover have "imported (ist (import_one e dry art w)) = imported (ist w)
              \<or> (\<forall>ev \<in> set (new5 @ Transform local_path True # new1 @ [WpLookup ?slug (Some img)]). \<not> failure ev)
                \<and> (\<exists>t. itr (import_one e dry art w) =
                      (if n_imported (import_one e dry art w) mod 10 = 0
                       then [ISave (ist (import_one e dry art w))] else []) @ Db Commit True # t)"
            using eq f5 n1 nf1 lp by auto
          ultimately show ?thesis by blast
        qed
      qed
    qed
  qed
qed

lemma pbi_import_one:
  "put_before_insert (itr w) \<Longrightarrow> put_before_insert (itr (import_one e dry art w))"
  using import_one_summary [of e dry art w] by blast

lemma pbi_import_loop:
  "put_before_insert (itr w) \<Longrightarrow> put_before_insert (itr (import_loop e dry arts w))"
  by (induction arts arbitrary: w) (auto simp: Let_def pbi_import_one)

lemma pbi_import_main: "put_before_insert (itr (import_main e dry limit s0 dir0 arts))"
  by (auto simp: import_main_def Let_def save_state_def intro!: pbi_import_loop)

lemma failure_keeps_imported:
  "\<exists>ev \<in> set (inew w (import_one e dry art w)). failure ev
   \<Longrightarrow> imported (ist (import_one e dry art w)) = imported (ist w)"
  using import_one_summary [of e dry art w] by (auto simp: inew_append)



section \<open>wp\_migrate.py: what a cut of a run has lost\<close>


lemma entries_marked [simp]: "entries (s\<lparr>completed_steps := cs\<rparr>) = entries s"
  by (simp add: entries_def)




lemma inv_cache [simp]: "ledger_inv s0 (w\<lparr>cache := c\<rparr>) = ledger_inv s0 w"
  by (simp add: ledger_inv_def)


lemma inv_save: "ledger_inv s0 w \<Longrightarrow> ledger_inv s0 (save w)"
  by (simp add: ledger_inv_def synced_def cut_ok_def save_def)




















section \<open>wp\_import\_images.py: the imports missing from the state file\<close>



lemma bi_frame [simp]:
  "batch_inv dry (w\<lparr>files := f\<rparr>) = batch_inv dry w"
  "batch_inv dry (w\<lparr>ist := s\<rparr>) = batch_inv dry w"
  "batch_inv dry (w\<lparr>n_failed := n\<rparr>) = batch_inv dry w"
  "batch_inv dry (w\<lparr>n_skipped := n\<rparr>) = batch_inv dry w"
  "batch_inv dry (w\<lparr>idead := d\<rparr>) = batch_inv dry w"
  by (simp_all add: batch_inv_def)

lemma bi_fail [simp]: "batch_inv dry (fail_article slug w) = batch_inv dry w"
  by (simp add: fail_article_def batch_inv_def)










lemma bi_dry_count [simp]: "batch_inv True (w\<lparr>n_imported := n\<rparr>) = batch_inv True w"
  by (simp add: batch_inv_def)






section \<open>wp\_import\_images.py: rounding in the image transform\<close>

text \<open>Rounding to the nearest integer is monotone and off by at most a half.\<close>

lemma rne_of_int [simp]: "rne (of_int k) = k"
  by (simp add: rne_def)

lemma rne_cases: "rne x = \<lfloor>x\<rfloor> \<or> rne x = \<lfloor>x\<rfloor> + 1"
  by (simp add: rne_def Let_def)

lemma rne_mono: "x \<le> y \<Longrightarrow> rne x \<le> rne y"
proof -
  assume xy: "x \<le> y"
  then have fm: "\<lfloor>x\<rfloor> \<le> \<lfloor>y\<rfloor>" by (rule floor_mono)
  show ?thesis
  proof (cases "\<lfloor>x\<rfloor> = \<lfloor>y\<rfloor>")
    case False
    with fm have "\<lfloor>x\<rfloor> + 1 \<le> \<lfloor>y\<rfloor>" by simp
    then show ?thesis using rne_cases [of x] rne_cases [of y] by linarith
  next
    case True
    then show ?thesis using xy by (auto simp: rne_def Let_def)
  qed
qed

lemma rne_upper: "of_int (rne x) \<le> x + 1 / 2"
proof (cases "x - of_int \<lfloor>x\<rfloor> < 1 / 2")
  case True
  have "of_int \<lfloor>x\<rfloor> \<le> x" by (rule of_int_floor_le)
  moreover have "rne x = \<lfloor>x\<rfloor>" using True by (simp add: rne_def Let_def)
  ultimately show ?thesis by linarith
next
  case False
  have "rne x \<le> \<lfloor>x\<rfloor> + 1" using rne_cases [of x] by linarith
  then have "rat_of_int (rne x) \<le> of_int \<lfloor>x\<rfloor> + 1"
    by (metis of_int_1 of_int_add of_int_le_iff)
  with False show ?thesis by linarith
qed

lemma ilog2_bounds:
  assumes "0 < x"
  shows "2 powi (ilog2 x) \<le> x \<and> x < 2 powi (ilog2 x + 1)"
proof (cases "1 \<le> x")
  case True
  define n where "n = nat \<lfloor>x\<rfloor>"
  define L where "L = floorlog 2 n"
  have "1 \<le> \<lfloor>x\<rfloor>" using True by (simp add: le_floor_iff)
  then have n1: "1 \<le> n" unfolding n_def by linarith
  then have b: "2 ^ (L - 1) \<le> n" "n < 2 ^ L"
    using floorlog_bounds [of n 2] by (simp_all add: L_def)
  have L1: "1 \<le> L" using n1 by (simp add: L_def floorlog_def)
  have e: "ilog2 x = int L - 1" using True by (simp add: ilog2_def n_def L_def)
  have "rat_of_nat n = of_int \<lfloor>x\<rfloor>" using \<open>1 \<le> \<lfloor>x\<rfloor>\<close> by (simp add: n_def)
  then have nx: "rat_of_nat n \<le> x" "x < rat_of_nat n + 1"
    using floor_correct [of x] by linarith+
  have q1: "(2::rat) powi (int L - 1) = 2 ^ (L - 1)"
    using L1 by (metis of_nat_1 of_nat_diff power_int_of_nat)
  have q2: "(2::rat) ^ (L - 1) \<le> rat_of_nat n"
    using b(1) by (metis of_nat_le_iff of_nat_numeral of_nat_power)
  have q3: "(2::rat) powi (int L - 1 + 1) = 2 ^ L" by simp
  have q4: "rat_of_nat n + 1 \<le> 2 ^ L"
  proof -
    from b(2) have "n + 1 \<le> 2 ^ L" by simp
    then have "rat_of_nat (n + 1) \<le> rat_of_nat (2 ^ L)" by (simp only: of_nat_le_iff)
    then show ?thesis by simp
  qed
  have "2 powi (ilog2 x) \<le> x" unfolding e using q1 q2 nx(1) by linarith
  moreover have "x < 2 powi (ilog2 x + 1)" unfolding e using q3 q4 nx(2) by linarith
  ultimately show ?thesis ..
next
  case False
  define y where "y = 1 / x"
  define n where "n = nat (\<lceil>y\<rceil> - 1)"
  define L where "L = floorlog 2 n"
  have y1: "1 < y" using assms False by (simp add: y_def)
  then have c2: "2 \<le> \<lceil>y\<rceil>" by (simp add: le_ceiling_iff)
  then have n1: "1 \<le> n" unfolding n_def by linarith
  then have b: "2 ^ (L - 1) \<le> n" "n < 2 ^ L"
    using floorlog_bounds [of n 2] by (simp_all add: L_def)
  have L1: "1 \<le> L" using n1 by (simp add: L_def floorlog_def)
  have e: "ilog2 x = - int L" using False by (simp add: ilog2_def n_def L_def y_def)
  have "rat_of_nat n = of_int \<lceil>y\<rceil> - 1" using c2 by (simp add: n_def)
  then have ny: "rat_of_nat n < y" "y \<le> rat_of_nat n + 1"
    using ceiling_correct [of y] by linarith+
  have up: "y \<le> 2 ^ L"
  proof -
    from b(2) have "n + 1 \<le> 2 ^ L" by simp
    then have "rat_of_nat (n + 1) \<le> rat_of_nat (2 ^ L)" by (simp only: of_nat_le_iff)
    then have "rat_of_nat n + 1 \<le> 2 ^ L" by simp
    then show ?thesis using ny(2) by linarith
  qed
  have lo: "(2::rat) ^ (L - 1) < y"
  proof -
    have "(2::rat) ^ (L - 1) \<le> rat_of_nat n"
      using b(1) by (metis of_nat_le_iff of_nat_numeral of_nat_power)
    then show ?thesis using ny(1) by linarith
  qed
  have x: "x = 1 / y" using assms by (simp add: y_def)
  have p1: "(2::rat) powi (- int L) = 1 / 2 ^ L"
    by (simp add: power_int_minus field_simps)
  have p2: "(2::rat) powi (- int L + 1) = 1 / 2 ^ (L - 1)"
  proof -
    have "- int L + 1 = - int (L - 1)" using L1 by simp
    then have "(2::rat) powi (- int L + 1) = 2 powi (- int (L - 1))" by (simp only:)
    also have "\<dots> = inverse (2 powi int (L - 1))" by (rule power_int_minus)
    also have "\<dots> = 1 / 2 ^ (L - 1)" by (simp only: power_int_of_nat inverse_eq_divide)
    finally show ?thesis .
  qed
  have r1: "1 / 2 ^ L \<le> 1 / y" using up y1 by (simp add: frac_le)
  have r2: "1 / y < 1 / 2 ^ (L - 1)" using lo by (simp add: frac_less2)
  have "2 powi (ilog2 x) \<le> x" unfolding e using p1 r1 x by linarith
  moreover have "x < 2 powi (ilog2 x + 1)" unfolding e using p2 r2 x by linarith
  ultimately show ?thesis ..
qed

lemma powi_mono: "a \<le> b \<Longrightarrow> (2::rat) powi a \<le> 2 powi b"
  by (rule power_int_increasing) simp_all

lemma ilog2_mono:
  assumes "0 < x" "x \<le> y"
  shows "ilog2 x \<le> ilog2 y"
proof (rule ccontr)
  assume "\<not> ilog2 x \<le> ilog2 y"
  then have "ilog2 y + 1 \<le> ilog2 x" by simp
  then have "(2::rat) powi (ilog2 y + 1) \<le> 2 powi (ilog2 x)" by (rule powi_mono)
  moreover have "2 powi (ilog2 x) \<le> x" using ilog2_bounds [of x] assms by simp
  moreover have "y < 2 powi (ilog2 y + 1)" using ilog2_bounds [of y] assms by simp
  ultimately show False using assms by linarith
qed

lemma fl_pos: "0 < x \<Longrightarrow> fl x = of_int (rne (x / 2 powi (ilog2 x - 52))) * 2 powi (ilog2 x - 52)"
  by (simp add: fl_def Let_def)

lemma scaled_bounds:
  assumes "0 < x"
  defines "u \<equiv> (2::rat) powi (ilog2 x - 52)"
  shows "0 < u" "2 powi 52 \<le> x / u" "x / u < 2 powi 53" "2 powi 52 * u = 2 powi (ilog2 x)"
    "2 powi 53 * u = 2 powi (ilog2 x + 1)"
proof -
  show u0: "0 < u" by (simp add: u_def)
  have "(2::rat) powi (52 + (ilog2 x - 52)) = 2 powi 52 * 2 powi (ilog2 x - 52)"
    by (rule power_int_add) simp
  moreover have "52 + (ilog2 x - 52) = ilog2 x" by simp
  ultimately show a: "2 powi 52 * u = 2 powi (ilog2 x)" by (simp only: u_def)
  have "(2::rat) powi (53 + (ilog2 x - 52)) = 2 powi 53 * 2 powi (ilog2 x - 52)"
    by (rule power_int_add) simp
  moreover have "53 + (ilog2 x - 52) = ilog2 x + 1" by simp
  ultimately show b: "2 powi 53 * u = 2 powi (ilog2 x + 1)" by (simp only: u_def)
  have "2 powi 52 * u \<le> x" using ilog2_bounds [OF assms(1)] by (simp only: a)
  then show "2 powi 52 \<le> x / u" using u0 by (simp only: pos_le_divide_eq)
  have "x < 2 powi 53 * u" using ilog2_bounds [OF assms(1)] by (simp only: b)
  then show "x / u < 2 powi 53" using u0 by (simp only: pos_divide_less_eq)
qed

lemma powi_nat_int: "(2::rat) powi int n = of_int (2 ^ n)"
  by (simp only: power_int_of_nat of_int_power of_int_numeral)

lemma rne_powi: "of_int (rne (2 powi int n)) = (2::rat) powi int n"
  by (simp only: powi_nat_int rne_of_int)

lemma fl_bounds:
  assumes "0 < x"
  shows "2 powi (ilog2 x) \<le> fl x" "fl x \<le> 2 powi (ilog2 x + 1)"
proof -
  let ?u = "(2::rat) powi (ilog2 x - 52)"
  note sb = scaled_bounds [OF assms]
  have f: "fl x = of_int (rne (x / ?u)) * ?u" using assms by (rule fl_pos)
  have r52: "rat_of_int (rne (2 powi 52)) = 2 powi 52"
    using rne_powi [of 52] by (simp only: of_nat_numeral)
  have r53: "rat_of_int (rne (2 powi 53)) = 2 powi 53"
    using rne_powi [of 53] by (simp only: of_nat_numeral)
  have "rne (2 powi 52) \<le> rne (x / ?u)" using sb(2) by (rule rne_mono)
  then have "rat_of_int (rne (2 powi 52)) \<le> of_int (rne (x / ?u))" by (simp only: of_int_le_iff)
  then have "2 powi 52 \<le> rat_of_int (rne (x / ?u))" by (simp only: r52)
  then have "2 powi 52 * ?u \<le> of_int (rne (x / ?u)) * ?u"
    using sb(1) by (intro mult_right_mono) (simp_all only: less_imp_le)
  then show "2 powi (ilog2 x) \<le> fl x" by (simp only: sb(4) f)
  have "x / ?u \<le> 2 powi 53" using sb(3) by (rule less_imp_le)
  then have "rne (x / ?u) \<le> rne (2 powi 53)" by (rule rne_mono)
  then have "rat_of_int (rne (x / ?u)) \<le> of_int (rne (2 powi 53))" by (simp only: of_int_le_iff)
  then have "rat_of_int (rne (x / ?u)) \<le> 2 powi 53" by (simp only: r53)
  then have "of_int (rne (x / ?u)) * ?u \<le> 2 powi 53 * ?u"
    using sb(1) by (intro mult_right_mono) (simp_all only: less_imp_le)
  then show "fl x \<le> 2 powi (ilog2 x + 1)" by (simp only: sb(5) f)
qed

lemma fl_mono:
  assumes "0 < x" "x \<le> y"
  shows "fl x \<le> fl y"
proof (cases "ilog2 x = ilog2 y")
  case True
  let ?u = "(2::rat) powi (ilog2 y - 52)"
  have u0: "0 < ?u" by simp
  have "x / ?u \<le> y / ?u" using assms u0 by (simp add: divide_right_mono)
  then have "rne (x / ?u) \<le> rne (y / ?u)" by (rule rne_mono)
  then have "rat_of_int (rne (x / ?u)) \<le> of_int (rne (y / ?u))" by (simp only: of_int_le_iff)
  then have "of_int (rne (x / ?u)) * ?u \<le> of_int (rne (y / ?u)) * ?u"
    using u0 by (simp only: mult_le_cancel_right_pos)
  then show ?thesis using assms True by (simp add: fl_pos)
next
  case False
  with ilog2_mono [OF assms] have "ilog2 x + 1 \<le> ilog2 y" by simp
  then have "(2::rat) powi (ilog2 x + 1) \<le> 2 powi (ilog2 y)" by (rule powi_mono)
  moreover have "fl x \<le> 2 powi (ilog2 x + 1)" using fl_bounds [of x] assms by simp
  moreover have "2 powi (ilog2 y) \<le> fl y" using fl_bounds [of y] assms by simp
  ultimately show ?thesis by linarith
qed

lemma ilog2_less:
  assumes "0 < x" "x < 2 powi k"
  shows "ilog2 x < k"
proof (rule ccontr)
  assume "\<not> ilog2 x < k"
  then have "k \<le> ilog2 x" by simp
  then have "(2::rat) powi k \<le> 2 powi (ilog2 x)" by (rule powi_mono)
  moreover have "2 powi (ilog2 x) \<le> x" using ilog2_bounds [OF assms(1)] by simp
  ultimately show False using assms(2) by linarith
qed

text \<open>
  Rounding to a double keeps an integer below \<open>2^53\<close> and changes a positive number by
  at most the fraction \<open>2^-53\<close> of it.
\<close>

lemma fl_of_int:
  assumes "0 < n" "rat_of_int n < 2 powi 53"
  shows "fl (of_int n) = of_int n"
proof -
  let ?x = "rat_of_int n"
  have x0: "0 < ?x" using assms(1) by simp
  have "ilog2 ?x < 53" using x0 assms(2) by (rule ilog2_less)
  then have "0 \<le> 52 - ilog2 ?x" by simp
  then obtain k :: nat where "52 - ilog2 ?x = int k" by (rule nonneg_int_cases)
  then have k: "ilog2 ?x - 52 = - int k" by simp
  have u: "(2::rat) powi (ilog2 ?x - 52) = inverse (of_int (2 ^ k))"
    by (simp only: k power_int_minus powi_nat_int)
  have p0: "rat_of_int (2 ^ k) \<noteq> 0" by simp
  have "?x / inverse (of_int (2 ^ k)) = of_int (n * 2 ^ k)"
    by (simp only: divide_inverse inverse_inverse_eq of_int_mult)
  then have "rne (?x / inverse (of_int (2 ^ k))) = n * 2 ^ k"
    by (simp only: rne_of_int)
  then have "fl ?x = of_int (n * 2 ^ k) * inverse (of_int (2 ^ k))"
    using x0 by (simp only: fl_pos u)
  also have "\<dots> = ?x * (of_int (2 ^ k) * inverse (of_int (2 ^ k)))"
    by (simp only: of_int_mult mult.assoc)
  also have "\<dots> = ?x * 1" using right_inverse [OF p0] by (simp only:)
  finally show ?thesis by (simp only: mult_1_right)
qed

lemma powi_53: "(2::rat) powi 53 = 9007199254740992"
  by (simp add: power_int_def)

lemma fl_one: "fl 1 = 1"
  using fl_of_int [of 1] by (simp add: powi_53)

lemma fl_upper:
  assumes "0 < x"
  shows "fl x \<le> x + x / (2 * 2 powi 52)"
proof -
  let ?u = "(2::rat) powi (ilog2 x - 52)"
  note sb = scaled_bounds [OF assms]
  have "of_int (rne (x / ?u)) \<le> x / ?u + 1 / 2" by (rule rne_upper)
  then have "of_int (rne (x / ?u)) * ?u \<le> (x / ?u + 1 / 2) * ?u"
    using sb(1) by (intro mult_right_mono) (simp_all only: less_imp_le)
  also have "\<dots> = x / ?u * ?u + 1 / 2 * ?u" by (rule distrib_right)
  also have "x / ?u * ?u = x" using sb(1) by simp
  finally have a: "fl x \<le> x + 1 / 2 * ?u" using assms by (simp only: fl_pos)
  have "2 powi 52 * ?u \<le> x" using ilog2_bounds [OF assms] by (simp only: sb(4))
  then have "?u * 2 powi 52 \<le> x" by (simp only: mult.commute)
  moreover have p: "(0::rat) < 2 powi 52" by simp
  ultimately have "?u \<le> x / 2 powi 52" by (simp only: pos_le_divide_eq)
  moreover have "x / (2 * 2 powi 52) = 1 / 2 * (x / 2 powi 52)" by simp
  ultimately show ?thesis using a by linarith
qed

lemma rne_lower: "x - 1 / 2 \<le> of_int (rne x)"
proof (cases "x - of_int \<lfloor>x\<rfloor> < 1 / 2")
  case True
  then have "rne x = \<lfloor>x\<rfloor>" by (simp add: rne_def Let_def)
  with True show ?thesis by linarith
next
  case False
  have "\<lfloor>x\<rfloor> \<le> rne x" using rne_cases [of x] by linarith
  then have "rat_of_int \<lfloor>x\<rfloor> \<le> of_int (rne x)" by (simp only: of_int_le_iff)
  moreover have "rne x = \<lfloor>x\<rfloor> + 1" if "1 / 2 < x - of_int \<lfloor>x\<rfloor>"
    using that by (simp add: rne_def Let_def)
  then have "rat_of_int (rne x) = of_int \<lfloor>x\<rfloor> + 1" if "1 / 2 < x - of_int \<lfloor>x\<rfloor>"
    using that by simp
  moreover have "x < of_int \<lfloor>x\<rfloor> + 1" using floor_correct [of x] by linarith
  ultimately show ?thesis using False by (cases "1 / 2 < x - of_int \<lfloor>x\<rfloor>") linarith+
qed

lemma fl_lower:
  assumes "0 < x"
  shows "x - x / (2 * 2 powi 52) \<le> fl x"
proof -
  let ?u = "(2::rat) powi (ilog2 x - 52)"
  note sb = scaled_bounds [OF assms]
  have "x / ?u - 1 / 2 \<le> of_int (rne (x / ?u))" by (rule rne_lower)
  then have "(x / ?u - 1 / 2) * ?u \<le> of_int (rne (x / ?u)) * ?u"
    using sb(1) by (intro mult_right_mono) (simp_all only: less_imp_le)
  moreover have "(x / ?u - 1 / 2) * ?u = x / ?u * ?u - 1 / 2 * ?u" by (rule left_diff_distrib)
  moreover have "x / ?u * ?u = x" using sb(1) by simp
  ultimately have a: "x - 1 / 2 * ?u \<le> fl x" using assms by (simp only: fl_pos)
  have "2 powi 52 * ?u \<le> x" using ilog2_bounds [OF assms] by (simp only: sb(4))
  then have "?u * 2 powi 52 \<le> x" by (simp only: mult.commute)
  moreover have p: "(0::rat) < 2 powi 52" by simp
  ultimately have "?u \<le> x / 2 powi 52" by (simp only: pos_le_divide_eq)
  moreover have "x / (2 * 2 powi 52) = 1 / 2 * (x / 2 powi 52)" by simp
  ultimately show ?thesis using a by linarith
qed

lemma powi_52: "2 * (2::rat) powi 52 = 9007199254740992"
  by (simp add: power_int_def)

lemma fl_err:
  assumes "0 < x"
  shows "x - x / 9007199254740992 \<le> fl x" "fl x \<le> x + x / 9007199254740992"
  using fl_lower [OF assms] fl_upper [OF assms] by (simp_all only: powi_52)

lemma fl_int:
  assumes "0 < n" "n < 2 ^ 53"
  shows "fl (of_int n) = of_int n"
proof -
  have "rat_of_int n < of_int (2 ^ 53)" using assms(2) by (simp only: of_int_less_iff)
  then have "rat_of_int n < 2 powi 53" by (simp add: powi_53)
  with assms(1) show ?thesis by (rule fl_of_int)
qed

lemma scale_close:
  fixes a r :: rat
  assumes n: "0 < n" "n < 2 ^ 53" and a: "0 < a"
    and r: "a - a / 9007199254740992 \<le> r" "r \<le> a + a / 9007199254740992"
    and t: "of_int n * a \<le> 1200"
  shows "of_int n * a - 1 - 1 / 1099511627776 < of_int (py_int (py_int_times_float n r))"
    and "of_int (py_int (py_int_times_float n r)) \<le> of_int n * a + 1 / 1099511627776"
proof -
  define tt where "tt = rat_of_int n * a"
  define x where "x = rat_of_int n * r"
  define y where "y = fl x"
  have n0: "0 < rat_of_int n" using n(1) by simp
  have t0: "0 < tt" unfolding tt_def using n0 a by (rule mult_pos_pos)
  have "rat_of_int n * (a - a / 9007199254740992) \<le> rat_of_int n * r"
    using r(1) n0 by (intro mult_left_mono) simp_all
  then have x1: "tt - tt / 9007199254740992 \<le> x"
    by (simp only: tt_def x_def right_diff_distrib times_divide_eq_right)
  have "rat_of_int n * r \<le> rat_of_int n * (a + a / 9007199254740992)"
    using r(2) n0 by (intro mult_left_mono) simp_all
  then have x2: "x \<le> tt + tt / 9007199254740992"
    by (simp only: tt_def x_def distrib_left times_divide_eq_right)
  have x0: "0 < x" using x1 t0 by linarith
  have y1: "x - x / 9007199254740992 \<le> y" and y2: "y \<le> x + x / 9007199254740992"
    unfolding y_def using fl_err [OF x0] by simp_all
  have t12: "tt \<le> 1200" using t by (simp only: tt_def)
  have y0: "0 \<le> y" using y1 x0 by linarith
  have up: "y \<le> tt + 1 / 1099511627776" using y2 x2 t12 t0 by linarith
  have lo: "tt - 1 / 1099511627776 \<le> y" using y1 x1 t12 t0 by linarith
  have p: "py_int (py_int_times_float n r) = \<lfloor>y\<rfloor>"
    using y0 by (simp add: py_int_def py_int_times_float_def fl_int [OF n] y_def x_def)
  have f: "of_int \<lfloor>y\<rfloor> \<le> y" "y < of_int \<lfloor>y\<rfloor> + 1"
    using floor_correct [of y] by linarith+
  show "of_int n * a - 1 - 1 / 1099511627776 < of_int (py_int (py_int_times_float n r))"
    unfolding p tt_def [symmetric] using f lo by linarith
  show "of_int (py_int (py_int_times_float n r)) \<le> of_int n * a + 1 / 1099511627776"
    unfolding p tt_def [symmetric] using f up by linarith
qed

lemma ratio_close:
  assumes "0 < w" "0 < h"
  defines "r \<equiv> min (py_truediv MAX_WIDTH w) (py_truediv MAX_HEIGHT h)"
  shows "0 < exact_ratio w h"
    "exact_ratio w h - exact_ratio w h / 9007199254740992 \<le> r"
    "r \<le> exact_ratio w h + exact_ratio w h / 9007199254740992"
proof -
  define a1 where "a1 = rat_of_int MAX_WIDTH / of_int w"
  define a2 where "a2 = rat_of_int MAX_HEIGHT / of_int h"
  have p: "0 < a1" "0 < a2" using assms(1,2) by (simp_all add: a1_def a2_def MAX_WIDTH_def MAX_HEIGHT_def)
  note e1 = fl_err [OF p(1)] and e2 = fl_err [OF p(2)]
  have r: "r = min (fl a1) (fl a2)" by (simp add: r_def py_truediv_def a1_def a2_def)
  have x: "exact_ratio w h = min a1 a2" by (simp add: exact_ratio_def a1_def a2_def)
  show "0 < exact_ratio w h" using p by (simp add: x)
  show "exact_ratio w h - exact_ratio w h / 9007199254740992 \<le> r"
    unfolding r x using e1 e2 p by (cases "a1 \<le> a2"; cases "fl a1 \<le> fl a2") (simp_all add: min_def)
  show "r \<le> exact_ratio w h + exact_ratio w h / 9007199254740992"
    unfolding r x using e1 e2 p by (cases "a1 \<le> a2"; cases "fl a1 \<le> fl a2") (simp_all add: min_def)
qed

text \<open>
  The computed size against the exact product of each dimension and the smaller ratio.
\<close>

lemma scale_nonneg:
  fixes r :: rat
  assumes "0 < n" "0 < r"
  shows "0 \<le> py_int (py_int_times_float n r)"
proof -
  have "0 < rat_of_int n" using assms(1) by simp
  then have "2 powi (ilog2 (rat_of_int n)) \<le> fl (of_int n)" by (rule fl_bounds(1))
  moreover have "(0::rat) < 2 powi (ilog2 (rat_of_int n))" by simp
  ultimately have "0 < fl (rat_of_int n)" by linarith
  then have x: "0 < fl (rat_of_int n) * r" using assms(2) by (rule mult_pos_pos)
  then have "2 powi (ilog2 (fl (rat_of_int n) * r)) \<le> fl (fl (rat_of_int n) * r)"
    by (rule fl_bounds(1))
  moreover have "(0::rat) < 2 powi (ilog2 (fl (rat_of_int n) * r))" by simp
  ultimately have "0 \<le> fl (fl (rat_of_int n) * r)" by linarith
  then show ?thesis by (simp add: py_int_def py_int_times_float_def)
qed

lemma int_le_of_close:
  fixes q :: rat
  assumes "rat_of_int k \<le> q + 1 / 1099511627776" "q \<le> of_int m"
  shows "k \<le> m"
proof -
  have "rat_of_int k < of_int m + 1" using assms by linarith
  then have "rat_of_int k < of_int (m + 1)" by simp
  then have "k < m + 1" by (simp only: of_int_less_iff)
  then show ?thesis by simp
qed

lemma exact_ratio_bounds:
  assumes "0 < w" "0 < h"
  shows "of_int w * exact_ratio w h \<le> 1200" "of_int h * exact_ratio w h \<le> 800"
    "1200 < w \<or> 800 < h \<Longrightarrow> exact_ratio w h \<le> 1"
proof -
  have w0: "0 < rat_of_int w" and h0: "0 < rat_of_int h" using assms by simp_all
  have "exact_ratio w h \<le> 1200 / of_int w"
    by (simp add: exact_ratio_def MAX_WIDTH_def)
  then have "of_int w * exact_ratio w h \<le> of_int w * (1200 / of_int w)"
    using w0 by (intro mult_left_mono) simp_all
  then show "of_int w * exact_ratio w h \<le> 1200" using w0 by simp
  have "exact_ratio w h \<le> 800 / of_int h"
    by (simp add: exact_ratio_def MAX_HEIGHT_def)
  then have "of_int h * exact_ratio w h \<le> of_int h * (800 / of_int h)"
    using h0 by (intro mult_left_mono) simp_all
  then show "of_int h * exact_ratio w h \<le> 800" using h0 by simp
  assume "1200 < w \<or> 800 < h"
  then show "exact_ratio w h \<le> 1"
  proof
    assume "1200 < w"
    then have "1200 / rat_of_int w \<le> 1" by simp
    then show ?thesis by (simp add: exact_ratio_def MAX_WIDTH_def min_le_iff_disj)
  next
    assume "800 < h"
    then have "800 / rat_of_int h \<le> 1" by simp
    then show ?thesis by (simp add: exact_ratio_def MAX_HEIGHT_def min_le_iff_disj)
  qed
qed

lemma scaled_size_close:
  assumes w: "0 < w" "w < 2 ^ 53" and h: "0 < h" "h < 2 ^ 53"
  shows "of_int w * exact_ratio w h - 1 - 1 / 1099511627776 < of_int (fst (scaled_size w h))"
    "of_int (fst (scaled_size w h)) \<le> of_int w * exact_ratio w h + 1 / 1099511627776"
    "of_int h * exact_ratio w h - 1 - 1 / 1099511627776 < of_int (snd (scaled_size w h))"
    "of_int (snd (scaled_size w h)) \<le> of_int h * exact_ratio w h + 1 / 1099511627776"
    "0 \<le> fst (scaled_size w h)" "0 \<le> snd (scaled_size w h)"
proof -
  define r where "r = min (py_truediv MAX_WIDTH w) (py_truediv MAX_HEIGHT h)"
  note rc = ratio_close [OF w(1) h(1), folded r_def]
  note eb = exact_ratio_bounds [OF w(1) h(1)]
  have s: "scaled_size w h = (py_int (py_int_times_float w r), py_int (py_int_times_float h r))"
    by (simp add: scaled_size_def r_def Let_def)
  have hb: "of_int h * exact_ratio w h \<le> 1200" using eb(2) by linarith
  have r0: "0 < r" using rc(1,2) by linarith
  show "of_int w * exact_ratio w h - 1 - 1 / 1099511627776 < of_int (fst (scaled_size w h))"
    unfolding s fst_conv by (rule scale_close(1) [OF w rc eb(1)])
  show "of_int (fst (scaled_size w h)) \<le> of_int w * exact_ratio w h + 1 / 1099511627776"
    unfolding s fst_conv by (rule scale_close(2) [OF w rc eb(1)])
  show "of_int h * exact_ratio w h - 1 - 1 / 1099511627776 < of_int (snd (scaled_size w h))"
    unfolding s snd_conv by (rule scale_close(1) [OF h rc hb])
  show "of_int (snd (scaled_size w h)) \<le> of_int h * exact_ratio w h + 1 / 1099511627776"
    unfolding s snd_conv by (rule scale_close(2) [OF h rc hb])
  show "0 \<le> fst (scaled_size w h)" unfolding s fst_conv using w(1) r0 by (rule scale_nonneg)
  show "0 \<le> snd (scaled_size w h)" unfolding s snd_conv using h(1) r0 by (rule scale_nonneg)
qed

lemma scaled_size_bounded:
  assumes w: "0 < w" "w < 2 ^ 53" and h: "0 < h" "h < 2 ^ 53" and big: "1200 < w \<or> 800 < h"
  shows "fst (scaled_size w h) \<le> min w 1200" "snd (scaled_size w h) \<le> min h 800"
proof -
  note c = scaled_size_close [OF w h]
  note eb = exact_ratio_bounds [OF w(1) h(1)]
  have e1: "exact_ratio w h \<le> 1" using big by (rule eb(3))
  have "rat_of_int w * exact_ratio w h \<le> of_int w * 1"
    using e1 w(1) by (intro mult_left_mono) simp_all
  then have ww: "rat_of_int w * exact_ratio w h \<le> of_int w" by simp
  have "rat_of_int h * exact_ratio w h \<le> of_int h * 1"
    using e1 h(1) by (intro mult_left_mono) simp_all
  then have hh: "rat_of_int h * exact_ratio w h \<le> of_int h" by simp
  have "fst (scaled_size w h) \<le> w" using c(2) ww by (rule int_le_of_close)
  moreover have "fst (scaled_size w h) \<le> 1200"
    using c(2) eb(1) int_le_of_close [of "fst (scaled_size w h)" "of_int w * exact_ratio w h" 1200]
    by simp
  ultimately show "fst (scaled_size w h) \<le> min w 1200" by simp
  have "snd (scaled_size w h) \<le> h" using c(4) hh by (rule int_le_of_close)
  moreover have "snd (scaled_size w h) \<le> 800"
    using c(4) eb(2) int_le_of_close [of "snd (scaled_size w h)" "of_int h * exact_ratio w h" 800]
    by simp
  ultimately show "snd (scaled_size w h) \<le> min h 800" by simp
qed

lemma scaled_size_example: "scaled_size 2400 1600 = (1200, 800)"
  by code_simp

text \<open>
  The truncation comes after the rounding: for a 2191 by 1460 picture the exact product
  of the width and the smaller ratio is 1200, the product of the doubles lies just below
  it, and the new width is 1199.
\<close>

lemma scaled_size_rounding:
  "scaled_size 2191 1460 = (1199, 799) \<and> \<lfloor>of_int 2191 * exact_ratio 2191 1460\<rfloor> = 1200"
  by code_simp

section \<open>The claims about effects\<close>

text \<open>
  C4. In every run of \<open>wp_import_images.py\<close> the event right before each insert of a
  media record is the object store write of the same object key, and that write returned:
  the object is stored before the record is inserted, and no record is inserted after a
  failed object store write. And when a pass of the loop logs a failure (a download that
  did not complete, a transform that raised, an object store call or a database statement
  that raised), the \<open>imported\<close> map after the pass is the one before it.
\<close>

theorem publish_order_and_failure:
  "put_before_insert (itr (import_main e dry limit s0 dir0 arts))
   \<and> ((\<exists>ev \<in> set (inew w (import_one e dry art w)). failure ev)
       \<longrightarrow> imported (ist (import_one e dry art w)) = imported (ist w))"
  using pbi_import_main [of e dry limit s0 dir0 arts] failure_keeps_imported [of w e dry art]
  by blast

theorem publish_order_and_failure_witness:
  "put_before_insert (itr (import_main (sample_ienv True) False 0 fresh_istate Map.empty [sample_article ''a'']))
   \<and> Db (InsertMedia ''id-3'' ''id-3.jpg'' ''articles/id-3.jpg'' 4 800 600 []) True
       \<in> set (itr (import_main (sample_ienv True) False 0 fresh_istate Map.empty [sample_article ''a'']))
   \<and> (\<exists>ev \<in> set (inew iworld0 (import_one (sample_ienv False) False (sample_article ''a'') iworld0)). failure ev)
   \<and> imported (ist (import_one (sample_ienv False) False (sample_article ''a'') iworld0)) = imported (ist iworld0)"
proof -
  have ins: "Db (InsertMedia ''id-3'' ''id-3.jpg'' ''articles/id-3.jpg'' 4 800 600 []) True
       \<in> set (itr (import_main (sample_ienv True) False 0 fresh_istate Map.empty [sample_article ''a'']))"
    by code_simp
  have f: "\<exists>ev \<in> set (inew iworld0 (import_one (sample_ienv False) False (sample_article ''a'') iworld0)). failure ev"
    by code_simp
  show ?thesis
    using ins f
      publish_order_and_failure [of "sample_ienv True" False 0 fresh_istate Map.empty "[sample_article ''a'']"
        iworld0 "sample_article ''a''"]
      publish_order_and_failure [of "sample_ienv False" False 0 fresh_istate Map.empty "[sample_article ''a'']"
        iworld0 "sample_article ''a''"]
    by blast
qed




text \<open>
  C2, at its failing inputs. A dry run of \<open>wp_import_images.py\<close> over one article
  without a featured image appends the slug to \<open>skipped\<close> and writes the state file; a
  dry run of the author step of \<open>wp_migrate.py\<close> on a ledger that holds an author id
  marks the step done and writes the state file.
\<close>

theorem dry_run_writes_ledger:
  "skipped (ist (import_main bare_ienv True 0 fresh_istate Map.empty [sample_article ''a''])) = [''a'']
   \<and> itr (import_main bare_ienv True 0 fresh_istate Map.empty [sample_article ''a''])
       = [ISave \<lparr> imported = [], failed = [], skipped = [''a''] \<rparr>, WpLookup ''a'' None]
   \<and> completed_steps (st (create_wn_author accepting_env True
         (world_of (empty_state\<lparr>wn_author_id := PStr ''author-1''\<rparr>) Map.empty))) = [''author'']
   \<and> tr (create_wn_author accepting_env True
         (world_of (empty_state\<lparr>wn_author_id := PStr ''author-1''\<rparr>) Map.empty))
       = [Save (empty_state\<lparr>wn_author_id := PStr ''author-1'', completed_steps := [''author'']\<rparr>)]"
  by code_simp

text \<open>
  C1, at its failing input. The ledger holds the supplementary page under its key
  \<open>additional_sobre-angola\<close> and the step is not marked done; the step posts the page
  again (the first event of the run) and overwrites the stored id.
\<close>

theorem additional_page_created_again:
  "mapped (empty_state\<lparr>wp_pages := [(''additional_sobre-angola'', PStr ''page-1'')]\<rparr>) Pages ''additional_sobre-angola''
   \<and> \<not> is_done (empty_state\<lparr>wp_pages := [(''additional_sobre-angola'', PStr ''page-1'')]\<rparr>) ''additional_pages''
   \<and> last (tr (create_additional_si_pages accepting_env False
        (world_of (empty_state\<lparr>wp_pages := [(''additional_sobre-angola'', PStr ''page-1'')]\<rparr>) Map.empty)))
      = Call (Some (Pages, ''additional_sobre-angola''))
          (POST ''http://localhost:8082/api/v1/pages''
             (JObj [(''slug'', JStr ''sobre-angola''), (''tipo'', JStr ''INSTITUTIONAL''), (''sortOrder'', JInt 0)]))
          (Resp 201 [(''id'', PStr ''new-0'')])
   \<and> dict_get (wp_pages (st (create_additional_si_pages accepting_env False
        (world_of (empty_state\<lparr>wp_pages := [(''additional_sobre-angola'', PStr ''page-1'')]\<rparr>) Map.empty))))
        ''additional_sobre-angola'' = PStr ''new-0''"
  by code_simp

text \<open>
  C5, at its failing input. \<open>download_media\<close> finds a cached file of zero bytes and
  returns its path without any download.
\<close>

theorem zero_byte_cache_hit:
  "download_media accepting_env ''https://botschaftangola.de/wp-content/uploads/logo.png''
     (world_of empty_state [''logo.png'' \<mapsto> []])
   = (Some ''logo.png'', world_of empty_state [''logo.png'' \<mapsto> []])"
  by (simp add: download_media_def accepting_env_def basename_def world_of_def Let_def)

text \<open>
  \<open>download_image\<close> does what the claim says: it returns a path without touching the
  network exactly when the cached file exists and is not empty.
\<close>

lemma download_image_hit_iff:
  "(fst (download_image e url slug w) = Some p \<and> itr (snd (download_image e url slug w)) = itr w)
   \<longleftrightarrow> (p = slug @ (if url_suffix e url \<noteq> [] then url_suffix e url else ''.jpg'')
        \<and> (\<exists>b. files w p = Some b \<and> b \<noteq> []))"
  by (auto simp: download_image_def Let_def ilog_def split: option.splits download.splits)

text \<open>
  C8. For a decoded picture of positive width and height (below \<open>2^53\<close>, where the
  conversion to a double is exact): \<open>resize_image\<close> takes the resizing branch only when
  the width exceeds 1200 or the height exceeds 800, and otherwise encodes the picture at
  its own size. In the resizing branch both dimensions are multiplied by the same ratio,
  the smaller of \<open>1200 / w\<close> and \<open>800 / h\<close> in double arithmetic, and truncated: each
  new dimension is at most the old one and at most its bound, and lies within one pixel
  below the exact product of the old dimension and the smaller ratio (up to \<open>2^-40\<close>). A
  2400 by 1600 picture gives 1200 by 800; an 800 by 600 picture keeps its size and is
  encoded again.
\<close>

theorem resize_image_sizes:
  assumes "pil_open P file = Some (w, h)" "0 < w" "0 < h" "w < 2 ^ 53" "h < 2 ^ 53"
  shows "resize_image P file =
      (if 1200 < w \<or> 800 < h
       then map_option (\<lambda>buf. (buf, scaled_size w h)) (pil_save P file (scaled_size w h))
       else map_option (\<lambda>buf. (buf, w, h)) (pil_save P file (w, h)))
    \<and> (1200 < w \<or> 800 < h \<longrightarrow>
         0 \<le> fst (scaled_size w h) \<and> fst (scaled_size w h) \<le> min w 1200
       \<and> 0 \<le> snd (scaled_size w h) \<and> snd (scaled_size w h) \<le> min h 800
       \<and> of_int w * exact_ratio w h - 1 - 1 / 2 ^ 40 < of_int (fst (scaled_size w h))
       \<and> of_int (fst (scaled_size w h)) \<le> of_int w * exact_ratio w h + 1 / 2 ^ 40
       \<and> of_int h * exact_ratio w h - 1 - 1 / 2 ^ 40 < of_int (snd (scaled_size w h))
       \<and> of_int (snd (scaled_size w h)) \<le> of_int h * exact_ratio w h + 1 / 2 ^ 40)
    \<and> scaled_size 2400 1600 = (1200, 800)
    \<and> resize_image (sample_pil 800 600) file = Some (''JPEG'', 800, 600)"
proof -
  have a: "resize_image P file =
      (if 1200 < w \<or> 800 < h
       then map_option (\<lambda>buf. (buf, scaled_size w h)) (pil_save P file (scaled_size w h))
       else map_option (\<lambda>buf. (buf, w, h)) (pil_save P file (w, h)))"
    using assms(1,2,3)
    by (simp add: resize_image_def MAX_WIDTH_def MAX_HEIGHT_def split: option.splits)
  have p: "(2::rat) ^ 40 = 1099511627776" by simp
  note c = scaled_size_close [OF assms(2,4,3,5)]
  have b: "1200 < w \<or> 800 < h \<Longrightarrow>
         fst (scaled_size w h) \<le> min w 1200 \<and> snd (scaled_size w h) \<le> min h 800"
    using scaled_size_bounded [OF assms(2,4,3,5)] by simp
  have d: "resize_image (sample_pil 800 600) file = Some (''JPEG'', 800, 600)"
    by (simp add: resize_image_def sample_pil_def MAX_WIDTH_def MAX_HEIGHT_def)
  show ?thesis
    using a b c d scaled_size_example unfolding p by blast
qed

theorem resize_image_sizes_witness:
  "resize_image (sample_pil 2400 1600) ''a.jpg'' = Some (''JPEG'', 1200, 800)
   \<and> resize_image (sample_pil 800 600) ''a.jpg'' = Some (''JPEG'', 800, 600)
   \<and> resize_image (sample_pil 3000 1000) ''a.jpg'' = Some (''JPEG'', 1200, 400)"
proof -
  have s: "scaled_size 3000 1000 = (1200, 400)" by code_simp
  show ?thesis
    using s
      resize_image_sizes [of "sample_pil 2400 1600" "''a.jpg''" 2400 1600]
      resize_image_sizes [of "sample_pil 800 600" "''a.jpg''" 800 600]
      resize_image_sizes [of "sample_pil 3000 1000" "''a.jpg''" 3000 1000]
    by (simp add: sample_pil_def)
qed

end
